theory Spec2Isabelle
  imports Main "HOL-Library.Sublist"
begin

section \<open>Python values used by the mailer\<close>

text \<open>
  The embedding follows \<^verbatim>\<open>email_app.py\<close> (classes \<^verbatim>\<open>CSVReader\<close>,
  \<^verbatim>\<open>TemplateRenderer\<close>, \<^verbatim>\<open>AttachmentHandler\<close>, \<^verbatim>\<open>EmailSender\<close>,
  \<^verbatim>\<open>EmailApplication\<close>) and the worker thread \<^verbatim>\<open>EmailWorker\<close> of
  \<^verbatim>\<open>email_gui.py\<close>.

  A Python \<^verbatim>\<open>str\<close> is a \<^typ>\<open>string\<close>; a character stands for a code point
  below 256. Exceptions are values of \<open>error\<close>; a function that can raise returns
  \<open>error + 'a\<close> with \<open>Inl\<close> for the exception. Everything a function does to the
  outside (calls on the logger, calls of the template library, the opening of an SMTP
  connection, the hand-over of a message to it, Qt signals) is appended to a trace of
  events that is passed in and returned.
\<close>

datatype error =
    EmailAppError string
  | ConfigurationError string
  | EmailSendError string
  | TemplateError string
  | CSVError string
  | KeyError string
  | CsvLibError string
  | UnicodeDecodeError string
  | ValueError string
  | TypeError string
  | OSError string
  | SMTPAuthenticationError string
  | SMTPException string

text \<open>\<^verbatim>\<open>str(e)\<close>: the message, and for a \<^verbatim>\<open>KeyError\<close> the repr of the key.\<close>

fun str_error :: "error \<Rightarrow> string" where
  "str_error (EmailAppError m) = m"
| "str_error (ConfigurationError m) = m"
| "str_error (EmailSendError m) = m"
| "str_error (TemplateError m) = m"
| "str_error (CSVError m) = m"
| "str_error (KeyError k) = [CHR 0x27] @ k @ [CHR 0x27]"
| "str_error (CsvLibError m) = m"
| "str_error (UnicodeDecodeError m) = m"
| "str_error (ValueError m) = m"
| "str_error (TypeError m) = m"
| "str_error (OSError m) = m"
| "str_error (SMTPAuthenticationError m) = m"
| "str_error (SMTPException m) = m"

text \<open>A key of a row dictionary: a column name, or \<^verbatim>\<open>None\<close> (the \<^verbatim>\<open>restkey\<close> of
  \<^verbatim>\<open>csv.DictReader\<close>). A dictionary is an association list in insertion order.\<close>

type_synonym pykey = "string option"

type_synonym recipient = "(pykey \<times> string) list"

datatype pyval = VStr string | VNone | VList "string list"

definition str_key :: "pykey \<Rightarrow> string" where
  "str_key k = (case k of None \<Rightarrow> ''None'' | Some s \<Rightarrow> s)"

fun dict_set :: "('k \<times> 'v) list \<Rightarrow> 'k \<Rightarrow> 'v \<Rightarrow> ('k \<times> 'v) list" where
  "dict_set [] k v = [(k, v)]"
| "dict_set ((k', v') # d) k v =
     (if k' = k then (k, v) # d else (k', v') # dict_set d k v)"

definition dict_get :: "recipient \<Rightarrow> string \<Rightarrow> string \<Rightarrow> string" where
  "dict_get d k dflt = (case map_of d (Some k) of Some v \<Rightarrow> v | None \<Rightarrow> dflt)"

fun truthy :: "pyval \<Rightarrow> bool" where
  "truthy (VStr s) = (s \<noteq> [])"
| "truthy VNone = False"
| "truthy (VList l) = (l \<noteq> [])"

definition py_or :: "string option \<Rightarrow> string \<Rightarrow> string" where
  "py_or x dflt = (case x of None \<Rightarrow> dflt | Some s \<Rightarrow> if s \<noteq> [] then s else dflt)"

fun py_join :: "string \<Rightarrow> string list \<Rightarrow> string" where
  "py_join sep [] = []"
| "py_join sep [x] = x"
| "py_join sep (x # y # zs) = x @ sep @ py_join sep (y # zs)"

definition digit_char :: "nat \<Rightarrow> char" where
  "digit_char d = ''0123456789'' ! d"

function show_nat :: "nat \<Rightarrow> string" where
  "show_nat n = (if n < 10 then [digit_char n] else show_nat (n div 10) @ [digit_char (n mod 10)])"
  by pat_completeness auto
termination
  by (relation "measure id") auto

declare show_nat.simps [simp del]

text \<open>\<^verbatim>\<open>str.isspace\<close> on the code points below 256, and \<^verbatim>\<open>str.strip()\<close>.\<close>

definition py_isspace :: "char \<Rightarrow> bool" where
  "py_isspace c = ((of_char c :: nat) \<in> {9, 10, 11, 12, 13, 28, 29, 30, 31, 32, 133, 160})"

definition py_strip :: "string \<Rightarrow> string" where
  "py_strip s = rev (dropWhile py_isspace (rev (dropWhile py_isspace s)))"

text \<open>\<^verbatim>\<open>s.replace(old, new)\<close>: every non-overlapping occurrence, leftmost first.\<close>

fun replace_from :: "string \<Rightarrow> string \<Rightarrow> string \<Rightarrow> string" where
  "replace_from old new [] = []"
| "replace_from old new (c # cs) =
     (if old \<noteq> [] \<and> prefix old (c # cs)
      then new @ replace_from old new (drop (length old) (c # cs))
      else c # replace_from old new cs)"

definition py_replace :: "string \<Rightarrow> string \<Rightarrow> string \<Rightarrow> string" where
  "py_replace s old new =
     (if old = [] then new @ concat (map (\<lambda>c. c # new) s) else replace_from old new s)"

section \<open>Files, messages and the trace of effects\<close>

text \<open>
  A regular file is known by what the library calls of the program return on it:
  \<^verbatim>\<open>os.path.getsize\<close>; reading it as UTF-8 text; reading it as bytes; opening it as
  UTF-8 text and reading the first 1024 characters (\<open>read_sample\<close>); and, for each
  delimiter, the rows that \<^verbatim>\<open>csv.reader\<close> yields from the start of the file with that
  delimiter, together with the exception that ends the iteration early, if any.
\<close>

record file_obj =
  getsize :: nat
  read_text :: "error + string"
  read_bytes :: "error + string"
  read_sample :: "error + string"
  csv_rows :: "char \<Rightarrow> string list list \<times> error option"

datatype fs_node = Directory | RegularFile file_obj

type_synonym filesystem = "string \<Rightarrow> fs_node option"

definition open_read_text :: "filesystem \<Rightarrow> string \<Rightarrow> error + string" where
  "open_read_text fs path =
     (case fs path of
        None \<Rightarrow>
          Inl (OSError (''[Errno 2] No such file or directory: '' @ [CHR 0x27] @ path @ [CHR 0x27]))
      | Some Directory \<Rightarrow>
          Inl (OSError (''[Errno 21] Is a directory: '' @ [CHR 0x27] @ path @ [CHR 0x27]))
      | Some (RegularFile f) \<Rightarrow> read_text f)"

definition basename :: "string \<Rightarrow> string" where
  "basename p = rev (takeWhile (\<lambda>c. c \<noteq> CHR ''/'') (rev p))"

datatype mime_class = MIMEText | MIMEImage | MIMEAudio | MIMEApplication

record mime_part =
  mime_class :: mime_class
  subtype :: string
  payload :: string
  content_disposition :: "string option"

record email_message =
  msg_from :: string
  msg_to :: string
  msg_subject :: string
  msg_parts :: "mime_part list"

record smtp_config =
  server :: string
  port :: nat
  username :: string
  password :: string
  use_tls :: bool
  use_ssl :: bool
  timeout :: nat

record app_config =
  smtp :: smtp_config
  csv_recipients :: string
  email_template :: string
  default_subject :: string
  sender_name :: "string option"

text \<open>The result dictionary of a bulk run.\<close>

record results =
  total_r :: nat
  sent :: nat
  failed :: nat
  errors :: "string list"
  success :: bool

datatype log_call =
    LogDebug string
  | LogInfo string
  | LogError string
  | LogEmailSuccess string string nat
  | LogEmailFailure string string "string option"
  | LogSmtpConnection string nat string

text \<open>
  The events of a trace. \<open>JinjaRender\<close> is a call of Jinja2 (\<^verbatim>\<open>Template(...)\<close> and
  \<^verbatim>\<open>render\<close>); \<open>SmtpConnect\<close> is a call of \<^verbatim>\<open>_create_smtp_connection\<close>, which opens a
  connection and logs in; \<open>SmtpSend\<close> is the call of \<^verbatim>\<open>send_message\<close> on an open
  connection.
\<close>

datatype event =
    Logged log_call
  | JinjaRender
  | SmtpConnect
  | SmtpSend email_message
  | ProgressUpdated nat nat
  | StatusUpdated string
  | EmailSentSignal string bool string
  | FinishedSignal results
  | ErrorOccurred string

type_synonym trace = "event list"

fun is_smtp_connect :: "event \<Rightarrow> bool" where
  "is_smtp_connect SmtpConnect = True"
| "is_smtp_connect e = False"

fun is_smtp_send :: "event \<Rightarrow> bool" where
  "is_smtp_send (SmtpSend m) = True"
| "is_smtp_send e = False"

fun is_jinja_render :: "event \<Rightarrow> bool" where
  "is_jinja_render JinjaRender = True"
| "is_jinja_render e = False"

fun is_logged :: "event \<Rightarrow> bool" where
  "is_logged (Logged c) = True"
| "is_logged e = False"

fun is_email_sent :: "event \<Rightarrow> bool" where
  "is_email_sent (EmailSentSignal r ok m) = True"
| "is_email_sent e = False"

text \<open>The calls of the transport so far (one for each connection that was asked
  for), the messages handed to a connection, and the calls of Jinja2.\<close>

definition smtp_calls :: "trace \<Rightarrow> nat" where
  "smtp_calls t = length (filter is_smtp_connect t)"

definition smtp_sends :: "trace \<Rightarrow> nat" where
  "smtp_sends t = length (filter is_smtp_send t)"

definition jinja_calls :: "trace \<Rightarrow> nat" where
  "jinja_calls t = length (filter is_jinja_render t)"

text \<open>
  The libraries the program calls and the mail server are parameters.

  \<^item> \<^verbatim>\<open>mimetypes.guess_type\<close>, \<^verbatim>\<open>bytes.decode('utf-8', errors='replace')\<close> and \<^verbatim>\<open>str\<close>
    of a list of strings.
  \<^item> Jinja2 (\<open>None\<close> when \<^verbatim>\<open>JINJA2_AVAILABLE\<close> is false): what compiling and rendering
    a template text against a record returns or raises. A Jinja2 template can draw on
    state outside the record (its \<^verbatim>\<open>random\<close> filter does), so the answer may also
    depend on the number of earlier calls.
  \<^item> \<^verbatim>\<open>csv.Sniffer().sniff(sample).delimiter\<close>; \<open>None\<close> when it raises \<^verbatim>\<open>csv.Error\<close>.
  \<^item> The mail server, in the three steps of an exchange, each given the configuration
    and the number of the connection (the number of connections asked for before it):
    \<open>smtp_connect\<close> is the body of the \<^verbatim>\<open>try\<close> of \<^verbatim>\<open>_create_smtp_connection\<close> (the
    constructor of \<^verbatim>\<open>SMTP\<close> or \<^verbatim>\<open>SMTP_SSL\<close>, \<^verbatim>\<open>starttls\<close>, \<^verbatim>\<open>login\<close>) and gives the
    exception it raises, if any; \<open>smtp_send_message\<close> is \<^verbatim>\<open>send_message\<close> on the open
    connection and gives the text of the exception it raises, if any; \<open>smtp_quit\<close> is
    the exit of the \<^verbatim>\<open>with\<close> block (\<^verbatim>\<open>SMTP.__exit__\<close> sends \<^verbatim>\<open>QUIT\<close>) and gives the text
    of the exception it raises, if any.
\<close>

record env =
  guess_type :: "string \<Rightarrow> string option \<times> string option"
  decode_utf8_replace :: "string \<Rightarrow> string"
  jinja2 :: "(nat \<Rightarrow> string \<Rightarrow> recipient \<Rightarrow> error + string) option"
  repr_list :: "string list \<Rightarrow> string"
  sniff :: "string \<Rightarrow> char option"
  smtp_connect :: "smtp_config \<Rightarrow> nat \<Rightarrow> error option"
  smtp_send_message :: "smtp_config \<Rightarrow> nat \<Rightarrow> email_message \<Rightarrow> string option"
  smtp_quit :: "smtp_config \<Rightarrow> nat \<Rightarrow> string option"

section \<open>CSVReader\<close>

text \<open>\<^verbatim>\<open>csv.DictReader.__next__\<close> on one non-empty row: \<^verbatim>\<open>dict(zip(fieldnames, row))\<close>,
  surplus cells under the key \<^verbatim>\<open>None\<close>, missing cells as \<^verbatim>\<open>None\<close>.\<close>

definition dict_of_pairs :: "('k \<times> 'v) list \<Rightarrow> ('k \<times> 'v) list" where
  "dict_of_pairs ps = fold (\<lambda>(k, v) d. dict_set d k v) ps []"

definition DictReader_row :: "string list \<Rightarrow> string list \<Rightarrow> (pykey \<times> pyval) list" where
  "DictReader_row fieldnames row =
     (let d = dict_of_pairs (zip (map Some fieldnames) (map VStr row));
          lf = length fieldnames;
          lr = length row
      in if lf < lr then dict_set d None (VList (drop lf row))
         else if lf > lr then fold (\<lambda>key d. dict_set d (Some key) VNone) (drop lr fieldnames) d
         else d)"

definition py_str :: "env \<Rightarrow> pyval \<Rightarrow> string" where
  "py_str env v = (case v of VStr s \<Rightarrow> s | VNone \<Rightarrow> ''None'' | VList l \<Rightarrow> repr_list env l)"

definition clean_row :: "env \<Rightarrow> (pykey \<times> pyval) list \<Rightarrow> recipient" where
  "clean_row env row =
     fold (\<lambda>(key, value) cleaned_row.
             dict_set cleaned_row key (if truthy value then py_strip (py_str env value) else []))
          row []"

text \<open>The loop over the reader (lines 363 to 373); \<^verbatim>\<open>DictReader\<close> itself skips the
  rows that are \<^verbatim>\<open>[]\<close>.\<close>

fun read_rows :: "env \<Rightarrow> string list \<Rightarrow> string list list \<Rightarrow> recipient list \<Rightarrow> recipient list" where
  "read_rows env fieldnames [] recipients = recipients"
| "read_rows env fieldnames (r # rows) recipients =
     (if r = [] then read_rows env fieldnames rows recipients
      else let row = DictReader_row fieldnames r in
           if \<not> list_ex truthy (map snd row) then read_rows env fieldnames rows recipients
           else read_rows env fieldnames rows (recipients @ [clean_row env row]))"

definition csv_wrap :: "error \<Rightarrow> error" where
  "csv_wrap e =
     (case e of
        CsvLibError m \<Rightarrow> CSVError (''CSV parsing error: '' @ m)
      | UnicodeDecodeError m \<Rightarrow> CSVError ''CSV file encoding error. Please ensure UTF-8 encoding.''
      | _ \<Rightarrow> CSVError (''Error reading CSV file: '' @ str_error e))"

text \<open>The delimiter the reader is given (lines 349 to 353): the one the sniffer
  detects in the sample, a comma when the sniffer raises \<^verbatim>\<open>csv.Error\<close>.\<close>

definition sniff_delimiter :: "env \<Rightarrow> string \<Rightarrow> char" where
  "sniff_delimiter env sample = (case sniff env sample of Some d \<Rightarrow> d | None \<Rightarrow> CHR '','')"

definition read_recipients ::
  "env \<Rightarrow> filesystem \<Rightarrow> string \<Rightarrow> trace \<Rightarrow> (error + recipient list) \<times> trace" where
  "read_recipients env fs csv_file t =
     (case fs csv_file of
        None \<Rightarrow> (Inl (CSVError (''CSV file not found: '' @ csv_file)), t)
      | Some Directory \<Rightarrow>
          (Inl (csv_wrap (OSError (''[Errno 21] Is a directory: '' @ [CHR 0x27] @ csv_file
                            @ [CHR 0x27]))), t)
      | Some (RegularFile f) \<Rightarrow>
          (case read_sample f of
             Inl e \<Rightarrow> (Inl (csv_wrap e), t)
           | Inr sample \<Rightarrow>
          (let delimiter = sniff_delimiter env sample in
           case csv_rows f delimiter of
             ([], None) \<Rightarrow>
               (Inl (csv_wrap (CSVError ''CSV file appears to be empty or has no headers'')), t)
           | ([], Some e) \<Rightarrow> (Inl (csv_wrap e), t)
           | (fieldnames # rows, stopped) \<Rightarrow>
               (if fieldnames = [] then
                  (Inl (csv_wrap (CSVError ''CSV file appears to be empty or has no headers'')), t)
                else
                  let t1 = t @ [Logged (LogInfo (''CSV columns found: '' @ py_join '', '' fieldnames))];
                      recipients = read_rows env fieldnames rows []
                  in (case stopped of
                        Some e \<Rightarrow> (Inl (csv_wrap e), t1)
                      | None \<Rightarrow>
                          if recipients = [] then
                            (Inl (csv_wrap (CSVError ''No valid recipients found in CSV file'')), t1)
                          else
                            (Inr recipients,
                             t1 @ [Logged (LogInfo (''Loaded '' @ show_nat (length recipients)
                                     @ '' valid recipients from CSV''))]))))))"

section \<open>TemplateRenderer\<close>

definition placeholder :: "pykey \<Rightarrow> string" where
  "placeholder key = ''{{'' @ str_key key @ ''}}''"

fun basic_template_replace :: "string \<Rightarrow> recipient \<Rightarrow> string" where
  "basic_template_replace rendered [] = rendered"
| "basic_template_replace rendered ((key, val) # items) =
     basic_template_replace (py_replace rendered (placeholder key) val) items"

definition render_template ::
  "env \<Rightarrow> filesystem \<Rightarrow> string \<Rightarrow> recipient \<Rightarrow> trace \<Rightarrow> (error + string) \<times> trace" where
  "render_template env fs template_path data t =
     (if fs template_path = None then
        (Inl (TemplateError (''Template file not found: '' @ template_path)), t)
      else
        case open_read_text fs template_path of
          Inl e \<Rightarrow> (Inl (TemplateError (''Error reading template file: '' @ str_error e)), t)
        | Inr template_content \<Rightarrow>
            (case (case jinja2 env of
                     Some render \<Rightarrow>
                       (render (jinja_calls t) template_content data, t @ [JinjaRender])
                   | None \<Rightarrow> (Inr (basic_template_replace template_content data), t)) of
               (Inl e, t1) \<Rightarrow>
                 (Inl (TemplateError (''Template rendering error: '' @ str_error e)), t1)
             | (Inr rendered, t1) \<Rightarrow>
                 (Inr rendered,
                  t1 @ [Logged (LogDebug (''Template rendered for ''
                           @ dict_get data ''email'' ''unknown recipient''))])))"

text \<open>\<^verbatim>\<open>EmailWorker.render_template\<close> of the GUI: the same loop over the items.\<close>

fun render_template_gui :: "string \<Rightarrow> recipient \<Rightarrow> string" where
  "render_template_gui rendered [] = rendered"
| "render_template_gui rendered ((key, val) # items) =
     render_template_gui (py_replace rendered (placeholder key) val) items"

section \<open>AttachmentHandler\<close>

text \<open>
  The handler holds \<^verbatim>\<open>max_size_bytes = max_size_mb * 1024 * 1024\<close> for an integer
  \<^verbatim>\<open>max_size_mb\<close> (the constructor and \<^verbatim>\<open>load_config\<close> both compute it so).

  The two numbers of the "too large" message are floats in the source. For a size
  below \<open>2 ^ 53\<close> bytes the quotient by \<open>1024 * 1024\<close> is exact in binary64, so
  \<^verbatim>\<open>{size_mb:.1f}\<close> is that quotient rounded to tenths, ties to even; and the limit
  in megabytes is a whole number, which \<^verbatim>\<open>str\<close> prints with \<^verbatim>\<open>.0\<close>.
\<close>

record attachment_handler =
  max_size_mb :: nat

definition max_size_bytes :: "attachment_handler \<Rightarrow> nat" where
  "max_size_bytes h = max_size_mb h * 1024 * 1024"

definition format_1f_mb :: "nat \<Rightarrow> string" where
  "format_1f_mb file_size =
     (let q = (file_size * 10) div (1024 * 1024);
          r = (file_size * 10) mod (1024 * 1024);
          tenths = (if 2 * r > 1024 * 1024 \<or> (2 * r = 1024 * 1024 \<and> odd q) then q + 1 else q)
      in show_nat (tenths div 10) @ ''.'' @ show_nat (tenths mod 10))"

definition str_float_mb :: "nat \<Rightarrow> string" where
  "str_float_mb size_bytes = show_nat (size_bytes div (1024 * 1024)) @ ''.0''"

text \<open>\<^verbatim>\<open>content_type.split('/', 1)\<close> unpacked into two names.\<close>

definition split_content_type :: "string \<Rightarrow> error + string \<times> string" where
  "split_content_type ct =
     (if CHR ''/'' \<in> set ct
      then Inr (takeWhile (\<lambda>c. c \<noteq> CHR ''/'') ct, tl (dropWhile (\<lambda>c. c \<noteq> CHR ''/'') ct))
      else Inl (ValueError ''not enough values to unpack (expected 2, got 1)''))"

definition create_attachment ::
  "env \<Rightarrow> filesystem \<Rightarrow> attachment_handler \<Rightarrow> string \<Rightarrow> trace \<Rightarrow> (error + mime_part) \<times> trace" where
  "create_attachment env fs h file_path t =
     (case fs file_path of
        None \<Rightarrow> (Inl (EmailSendError (''Attachment file not found: '' @ file_path)), t)
      | Some Directory \<Rightarrow>
          (Inl (EmailSendError (''Attachment path is not a file: '' @ file_path)), t)
      | Some (RegularFile f) \<Rightarrow>
          (let file_size = getsize f in
           if file_size > max_size_bytes h then
            (Inl (EmailSendError (''File too large: '' @ format_1f_mb file_size
                    @ ''MB (max: '' @ str_float_mb (max_size_bytes h) @ ''MB)'')), t)
           else
            let file_name = basename file_path;
                guessed = guess_type env file_path;
                content_type =
                  (case guessed of
                     (Some ct, None) \<Rightarrow> ct
                   | _ \<Rightarrow> ''application/octet-stream'')
            in (case split_content_type content_type of
                 Inl e \<Rightarrow> (Inl e, t)
               | Inr (main_type, sub_type) \<Rightarrow>
                   (case read_bytes f of
                      Inl e \<Rightarrow>
                        (Inl (EmailSendError (''Cannot read attachment file: '' @ str_error e)), t)
                    | Inr file_data \<Rightarrow>
                        let attachment =
                              (if main_type = ''text'' then
                                 \<lparr>mime_class = MIMEText, subtype = sub_type,
                                  payload = decode_utf8_replace env file_data,
                                  content_disposition = None\<rparr>
                               else if main_type = ''image'' then
                                 \<lparr>mime_class = MIMEImage, subtype = sub_type,
                                  payload = file_data, content_disposition = None\<rparr>
                               else if main_type = ''audio'' then
                                 \<lparr>mime_class = MIMEAudio, subtype = sub_type,
                                  payload = file_data, content_disposition = None\<rparr>
                               else
                                 \<lparr>mime_class = MIMEApplication, subtype = sub_type,
                                  payload = file_data, content_disposition = None\<rparr>)
                        in (Inr (attachment\<lparr>content_disposition :=
                                   Some (''attachment; filename='' @ [CHR 0x22] @ file_name
                                         @ [CHR 0x22])\<rparr>),
                            t @ [Logged (LogDebug (''Created attachment: '' @ file_name @ '' (''
                                   @ show_nat file_size @ '' bytes)''))])))))"

section \<open>EmailSender\<close>

datatype recipient_arg = RStr string | RList "string list" | RNone

text \<open>The loop over the attachment paths (lines 612 to 619).\<close>

fun attach_all ::
  "env \<Rightarrow> filesystem \<Rightarrow> attachment_handler \<Rightarrow> string list \<Rightarrow> mime_part list \<Rightarrow> nat \<Rightarrow> trace
   \<Rightarrow> (error + mime_part list \<times> nat) \<times> trace" where
  "attach_all env fs h [] parts attachment_count t = (Inr (parts, attachment_count), t)"
| "attach_all env fs h (file_path # rest) parts attachment_count t =
     (case create_attachment env fs h file_path t of
        (Inl e, t') \<Rightarrow>
          (Inl (EmailSendError (''Attachment error: '' @ str_error e)),
           t' @ [Logged (LogError (''Failed to attach '' @ file_path @ '': '' @ str_error e))])
      | (Inr attachment, t') \<Rightarrow>
          attach_all env fs h rest (parts @ [attachment]) (attachment_count + 1) t')"

definition text_part :: "string \<Rightarrow> string \<Rightarrow> mime_part" where
  "text_part content sub =
     \<lparr>mime_class = MIMEText, subtype = sub, payload = content, content_disposition = None\<rparr>"

text \<open>
  \<^verbatim>\<open>_create_smtp_connection\<close> (lines 637 to 666): the connection is asked for, and
  what the library raises is raised again as \<^verbatim>\<open>EmailSendError\<close>, the text depending
  on the class of the exception. On success the number of the connection stands for
  the \<^verbatim>\<open>smtp\<close> object that is returned.
\<close>

definition connection_error :: "error \<Rightarrow> error" where
  "connection_error e =
     (case e of
        SMTPAuthenticationError m \<Rightarrow> EmailSendError (''SMTP authentication failed: '' @ m)
      | SMTPException m \<Rightarrow> EmailSendError (''SMTP error: '' @ m)
      | _ \<Rightarrow> EmailSendError (''Connection error: '' @ str_error e))"

definition create_smtp_connection ::
  "env \<Rightarrow> smtp_config \<Rightarrow> trace \<Rightarrow> (error + nat) \<times> trace" where
  "create_smtp_connection env smtp_config t =
     (case smtp_connect env smtp_config (smtp_calls t) of
        None \<Rightarrow> (Inr (smtp_calls t), t @ [SmtpConnect])
      | Some e \<Rightarrow> (Inl (connection_error e), t @ [SmtpConnect]))"

text \<open>
  \<^verbatim>\<open>send_email\<close> (lines 580 to 635). The last \<^verbatim>\<open>try\<close> asks for the connection, hands the
  message to it, logs the success for each recipient and leaves the \<^verbatim>\<open>with\<close> block;
  an exception of any of these steps is logged as a failure for each recipient and
  raised again as \<^verbatim>\<open>EmailSendError\<close>. When the connection cannot be made,
  \<^verbatim>\<open>send_message\<close> is not called. When both \<^verbatim>\<open>send_message\<close> and the exit of the block
  raise, the exception of the exit is the one that is caught.
\<close>

definition send_email ::
  "env \<Rightarrow> filesystem \<Rightarrow> attachment_handler \<Rightarrow> smtp_config \<Rightarrow> string \<Rightarrow> recipient_arg \<Rightarrow> string
   \<Rightarrow> string \<Rightarrow> string option \<Rightarrow> string list option \<Rightarrow> string option \<Rightarrow> trace
   \<Rightarrow> (error + bool) \<times> trace" where
  "send_email env fs h smtp_config sender recipient subject body html_body attachments
      sender_name' t =
     (let recipients = (case recipient of RStr s \<Rightarrow> [s] | RList l \<Rightarrow> l | RNone \<Rightarrow> []) in
      if recipients = [] then (Inl (EmailSendError ''No recipients specified''), t)
      else
        let recipient_str = py_join '', '' recipients;
            t1 = t @ [Logged (LogInfo (''Sending email to: '' @ recipient_str)),
                      Logged (LogSmtpConnection (server smtp_config) (port smtp_config)
                                (username smtp_config))];
            from_header =
              (case sender_name' of
                 Some n \<Rightarrow> if n \<noteq> [] then n @ '' <'' @ sender @ ''>'' else sender
               | None \<Rightarrow> sender);
            body_parts =
              (case html_body of
                 Some html \<Rightarrow>
                   if html \<noteq> [] then [text_part body ''plain'', text_part html ''html'']
                   else [text_part body ''plain'']
               | None \<Rightarrow> [text_part body ''plain''])
        in (case attach_all env fs h (case attachments of Some l \<Rightarrow> l | None \<Rightarrow> [])
                  body_parts 0 t1 of
             (Inl e, t2) \<Rightarrow> (Inl e, t2)
           | (Inr (parts, attachment_count), t2) \<Rightarrow>
               let msg = \<lparr>msg_from = from_header, msg_to = recipient_str,
                          msg_subject = subject, msg_parts = parts\<rparr>;
                   failure = (\<lambda>error_msg t'.
                      (Inl (EmailSendError (''SMTP error: '' @ error_msg)),
                       t' @ map (\<lambda>r. Logged (LogEmailFailure r error_msg (Some subject)))
                              recipients))
               in (case create_smtp_connection env smtp_config t2 of
                    (Inl e, t3) \<Rightarrow> failure (str_error e) t3
                  | (Inr smtp_server, t3) \<Rightarrow>
                      (case smtp_send_message env smtp_config smtp_server msg of
                         Some error_msg \<Rightarrow>
                           failure (case smtp_quit env smtp_config smtp_server of
                                      Some quit_msg \<Rightarrow> quit_msg
                                    | None \<Rightarrow> error_msg)
                                   (t3 @ [SmtpSend msg])
                       | None \<Rightarrow>
                           let t4 = t3 @ [SmtpSend msg]
                                      @ map (\<lambda>r. Logged (LogEmailSuccess r subject attachment_count))
                                          recipients
                           in (case smtp_quit env smtp_config smtp_server of
                                 Some quit_msg \<Rightarrow> failure quit_msg t4
                               | None \<Rightarrow> (Inr True, t4))))))"

section \<open>EmailApplication.send_bulk_emails\<close>

text \<open>The subject of one iteration (lines 826 to 833).\<close>

definition render_subject ::
  "env \<Rightarrow> string \<Rightarrow> recipient \<Rightarrow> trace \<Rightarrow> (error + string) \<times> trace" where
  "render_subject env email_subject recipient_data t =
     (case jinja2 env of
        Some render \<Rightarrow> (render (jinja_calls t) email_subject recipient_data, t @ [JinjaRender])
      | None \<Rightarrow> (Inr (basic_template_replace email_subject recipient_data), t))"

text \<open>The body of the \<^verbatim>\<open>try\<close> of one iteration (lines 818 to 854): the exception that
  leaves it, if any, with the results and the trace at that point.\<close>

definition bulk_try ::
  "env \<Rightarrow> filesystem \<Rightarrow> attachment_handler \<Rightarrow> app_config \<Rightarrow> string \<Rightarrow> string
   \<Rightarrow> string list option \<Rightarrow> nat \<Rightarrow> recipient \<Rightarrow> results \<times> trace
   \<Rightarrow> error option \<times> results \<times> trace" where
  "bulk_try env fs h cfg template_path email_subject attachments i recipient_data st =
     (case st of (res, t) \<Rightarrow>
      (case render_template env fs template_path recipient_data t of
        (Inl e, t1) \<Rightarrow> (Some e, res, t1)
      | (Inr personalized_body, t0) \<Rightarrow>
          (case render_subject env email_subject recipient_data t0 of
             (Inl e, t1) \<Rightarrow> (Some e, res, t1)
           | (Inr personalized_subject, t1) \<Rightarrow>
               (case map_of recipient_data (Some ''email'') of
                  None \<Rightarrow> (Some (KeyError ''email''), res, t1)
                | Some email \<Rightarrow>
                    (case send_email env fs h (smtp cfg) (username (smtp cfg)) (RStr email)
                            personalized_subject personalized_body None attachments
                            (sender_name cfg) t1 of
                       (Inl e, t2) \<Rightarrow> (Some e, res, t2)
                     | (Inr ok, t2) \<Rightarrow>
                         let res1 =
                               (if ok then res\<lparr>sent := sent res + 1\<rparr>
                                else res\<lparr>failed := failed res + 1,
                                         errors := errors res @ [''Failed to send to '' @ email]\<rparr>);
                             t3 =
                               (if i mod 10 = 0 then
                                  t2 @ [Logged (LogInfo (''Progress: '' @ show_nat i @ ''/''
                                          @ show_nat (total_r res1) @ '' emails processed''))]
                                else t2)
                         in (None, res1, t3))))))"

definition bulk_step ::
  "env \<Rightarrow> filesystem \<Rightarrow> attachment_handler \<Rightarrow> app_config \<Rightarrow> string \<Rightarrow> string
   \<Rightarrow> string list option \<Rightarrow> nat \<Rightarrow> recipient \<Rightarrow> results \<times> trace \<Rightarrow> results \<times> trace" where
  "bulk_step env fs h cfg template_path email_subject attachments i recipient_data st =
     (case bulk_try env fs h cfg template_path email_subject attachments i recipient_data st of
        (None, res, t) \<Rightarrow> (res, t)
      | (Some e, res, t) \<Rightarrow>
          let error_msg = ''Error sending to '' @ dict_get recipient_data ''email'' ''unknown''
                            @ '': '' @ str_error e
          in (res\<lparr>failed := failed res + 1, errors := errors res @ [error_msg]\<rparr>,
              t @ [Logged (LogError error_msg)]))"

fun bulk_loop ::
  "env \<Rightarrow> filesystem \<Rightarrow> attachment_handler \<Rightarrow> app_config \<Rightarrow> string \<Rightarrow> string
   \<Rightarrow> string list option \<Rightarrow> nat \<Rightarrow> recipient list \<Rightarrow> results \<times> trace \<Rightarrow> results \<times> trace" where
  "bulk_loop env fs h cfg template_path email_subject attachments i [] st = st"
| "bulk_loop env fs h cfg template_path email_subject attachments i (recipient_data # rest) st =
     bulk_loop env fs h cfg template_path email_subject attachments (i + 1) rest
       (bulk_step env fs h cfg template_path email_subject attachments i recipient_data st)"

definition send_bulk_emails ::
  "env \<Rightarrow> filesystem \<Rightarrow> attachment_handler \<Rightarrow> app_config option \<Rightarrow> string option
   \<Rightarrow> string option \<Rightarrow> string option \<Rightarrow> string list option \<Rightarrow> trace
   \<Rightarrow> (error + results) \<times> trace" where
  "send_bulk_emails env fs h config csv_file template_file subject attachments t =
     (case config of
        None \<Rightarrow> (Inl (EmailAppError ''No configuration loaded''), t)
      | Some cfg \<Rightarrow>
          let csv_path = py_or csv_file (csv_recipients cfg);
              template_path = py_or template_file (email_template cfg);
              email_subject = py_or subject (default_subject cfg);
              t0 = t @ [Logged (LogInfo ''Reading recipient data from CSV...'')]
          in (case read_recipients env fs csv_path t0 of
               (Inl e, t1) \<Rightarrow> (Inl e, t1)
             | (Inr recipients, t1) \<Rightarrow>
                 let res0 = \<lparr>total_r = length recipients, sent = 0, failed = 0, errors = [],
                             success = False\<rparr>;
                     t2 = t1 @ [Logged (LogInfo (''Starting bulk email send to ''
                                  @ show_nat (total_r res0) @ '' recipients''))]
                 in (case bulk_loop env fs h cfg template_path email_subject attachments 1
                           recipients (res0, t2) of
                      (res, t3) \<Rightarrow>
                        (Inr (res\<lparr>success := (failed res = 0)\<rparr>),
                         t3 @ [Logged (LogInfo (''Bulk email completed - Sent: ''
                                 @ show_nat (sent res) @ '', Failed: '' @ show_nat (failed res)))]))))"

section \<open>EmailWorker: the bulk run of the GUI\<close>

text \<open>
  \<^verbatim>\<open>should_stop\<close> is written by another thread (\<^verbatim>\<open>EmailWorker.stop\<close>); the loop reads
  it once at the head of each iteration. The parameter \<open>should_stop i\<close> is the value
  read at the head of iteration \<open>i\<close> (counted from 0). The configuration \<open>None\<close>
  stands for \<^verbatim>\<open>email_app.config\<close> being \<^verbatim>\<open>None\<close>, where subscripting raises and the
  outer handler reports it.
\<close>

definition run_bulk_step ::
  "env \<Rightarrow> filesystem \<Rightarrow> attachment_handler \<Rightarrow> smtp_config \<Rightarrow> string \<Rightarrow> string \<Rightarrow> string list
   \<Rightarrow> nat \<Rightarrow> nat \<Rightarrow> recipient \<Rightarrow> results \<times> trace \<Rightarrow> results \<times> trace" where
  "run_bulk_step env fs h smtp_config template_content subject attachments total' i
      recipient_data st =
     (case st of (res, t) \<Rightarrow>
      (let t1 = t @ [ProgressUpdated (i + 1) total',
                    StatusUpdated (''Sending to '' @ dict_get recipient_data ''email'' ''Unknown''
                                     @ ''...'')];
          personalized_body = render_template_gui template_content recipient_data;
          personalized_subject = render_template_gui subject recipient_data
      in (case send_email env fs h smtp_config (username smtp_config)
                (case map_of recipient_data (Some ''email'') of
                   Some email \<Rightarrow> RStr email
                 | None \<Rightarrow> RNone)
                personalized_subject personalized_body None (Some attachments) None t1 of
           (Inr ok, t2) \<Rightarrow>
             if ok then
               (res\<lparr>sent := sent res + 1\<rparr>,
                t2 @ [EmailSentSignal (dict_get recipient_data ''email'' ''Unknown'') True [] ])
             else
               (res\<lparr>failed := failed res + 1\<rparr>,
                t2 @ [EmailSentSignal (dict_get recipient_data ''email'' ''Unknown'') False
                        ''Send failed''])
         | (Inl e, t2) \<Rightarrow>
             (res\<lparr>failed := failed res + 1, errors := errors res @ [str_error e]\<rparr>,
              t2 @ [EmailSentSignal (dict_get recipient_data ''email'' ''Unknown'') False
                      (str_error e)]))))"

fun run_bulk_loop ::
  "env \<Rightarrow> filesystem \<Rightarrow> attachment_handler \<Rightarrow> smtp_config \<Rightarrow> string \<Rightarrow> string \<Rightarrow> string list
   \<Rightarrow> nat \<Rightarrow> (nat \<Rightarrow> bool) \<Rightarrow> nat \<Rightarrow> recipient list \<Rightarrow> results \<times> trace \<Rightarrow> results \<times> trace" where
  "run_bulk_loop env fs h smtp_config template_content subject attachments total' should_stop i
      [] st = st"
| "run_bulk_loop env fs h smtp_config template_content subject attachments total' should_stop i
      (recipient_data # rest) st =
     (if should_stop i then st
      else run_bulk_loop env fs h smtp_config template_content subject attachments total'
             should_stop (i + 1) rest
             (run_bulk_step env fs h smtp_config template_content subject attachments total' i
                recipient_data st))"

definition run_bulk_email ::
  "env \<Rightarrow> filesystem \<Rightarrow> attachment_handler \<Rightarrow> app_config option \<Rightarrow> recipient list \<Rightarrow> string
   \<Rightarrow> string \<Rightarrow> string list \<Rightarrow> (nat \<Rightarrow> bool) \<Rightarrow> trace \<Rightarrow> trace" where
  "run_bulk_email env fs h config recipients template_content subject attachments should_stop t =
     (let total' = length recipients;
          t0 = t @ [StatusUpdated ''Reading recipients...'', ProgressUpdated 0 total']
      in (case config of
           None \<Rightarrow>
             t0 @ [ErrorOccurred (''Bulk email error: ''
                     @ str_error (TypeError ([CHR 0x27] @ ''NoneType'' @ [CHR 0x27]
                         @ '' object is not subscriptable'')))]
         | Some cfg \<Rightarrow>
             let res0 = \<lparr>total_r = total', sent = 0, failed = 0, errors = [], success = False\<rparr>
             in (case run_bulk_loop env fs h (smtp cfg) template_content subject attachments total'
                       should_stop 0 recipients (res0, t0) of
                  (res, t1) \<Rightarrow> t1 @ [FinishedSignal (res\<lparr>success := (failed res = 0)\<rparr>)])))"

section \<open>Templates as literal text and placeholders\<close>

text \<open>
  To state what rendering does, a template is read as a sequence of literal pieces
  and placeholders \<^verbatim>\<open>{{name}}\<close>. \<open>subst_segment d\<close> is the simultaneous reading of
  a substitution: a placeholder becomes the value of the first field of \<open>d\<close> whose
  key prints as its name, and stays as it is when there is none.
\<close>

datatype segment = Lit string | Ph string

fun seg_text :: "segment \<Rightarrow> string" where
  "seg_text (Lit s) = s"
| "seg_text (Ph n) = ''{{'' @ n @ ''}}''"

definition template_text :: "segment list \<Rightarrow> string" where
  "template_text segs = concat (map seg_text segs)"

fun lookup_name :: "recipient \<Rightarrow> string \<Rightarrow> string option" where
  "lookup_name [] n = None"
| "lookup_name ((k, v) # d) n = (if str_key k = n then Some v else lookup_name d n)"

fun subst_segment :: "recipient \<Rightarrow> segment \<Rightarrow> string" where
  "subst_segment d (Lit s) = s"
| "subst_segment d (Ph n) = (case lookup_name d n of Some v \<Rightarrow> v | None \<Rightarrow> ''{{'' @ n @ ''}}'')"





section \<open>What a loaded row is\<close>



section \<open>Traces, attachments and the order of events\<close>

text \<open>The events of a trace that are not log entries: the calls of Jinja2, the
  connections and hand-overs to SMTP and the signals of the worker. An event is
  internal when it is a log entry or a call of Jinja2.\<close>

definition nonlog :: "trace \<Rightarrow> trace" where
  "nonlog t = filter (\<lambda>e. \<not> is_logged e) t"

fun is_internal :: "event \<Rightarrow> bool" where
  "is_internal (Logged c) = True"
| "is_internal JinjaRender = True"
| "is_internal e = False"

text \<open>
  The outcome of the exchange with the mail server for connection number \<open>n\<close> and a
  message: \<open>None\<close> when the connection is made, the message is accepted and the
  connection is closed, and otherwise the text of the exception that \<^verbatim>\<open>send_email\<close>
  catches.
\<close>

definition transport_error ::
  "env \<Rightarrow> smtp_config \<Rightarrow> nat \<Rightarrow> email_message \<Rightarrow> string option" where
  "transport_error env sc n msg =
     (case smtp_connect env sc n of
        Some e \<Rightarrow> Some (str_error (connection_error e))
      | None \<Rightarrow>
          (case smtp_send_message env sc n msg of
             Some m \<Rightarrow> Some (case smtp_quit env sc n of Some mq \<Rightarrow> mq | None \<Rightarrow> m)
           | None \<Rightarrow> smtp_quit env sc n))"

text \<open>A record without the key \<^verbatim>\<open>email\<close>, and an error line of the bulk run that names
  its recipient as \<^verbatim>\<open>unknown\<close>.\<close>

definition lacks_email :: "recipient \<Rightarrow> bool" where
  "lacks_email r = (map_of r (Some ''email'') = None)"

definition unknown_line :: "string \<Rightarrow> bool" where
  "unknown_line s = prefix ''Error sending to unknown: '' s"

text \<open>A path that \<^verbatim>\<open>create_attachment\<close> refuses before reading: missing, not a regular
  file, or larger than the limit.\<close>

definition invalid_attachment :: "filesystem \<Rightarrow> attachment_handler \<Rightarrow> string \<Rightarrow> bool" where
  "invalid_attachment fs h p =
     (case fs p of
        None \<Rightarrow> True
      | Some Directory \<Rightarrow> True
      | Some (RegularFile f) \<Rightarrow> getsize f > max_size_bytes h)"

definition attachments_ok ::
  "env \<Rightarrow> filesystem \<Rightarrow> attachment_handler \<Rightarrow> string list option \<Rightarrow> bool" where
  "attachments_ok env fs h atts =
     list_all (\<lambda>p. \<not> isl (fst (create_attachment env fs h p [])))
       (case atts of None \<Rightarrow> [] | Some l \<Rightarrow> l)"

text \<open>The template and the subject render for a record, whatever the strategy and
  whatever came before.\<close>

definition renders_ok :: "env \<Rightarrow> filesystem \<Rightarrow> string \<Rightarrow> string \<Rightarrow> recipient \<Rightarrow> bool" where
  "renders_ok env fs tp subj r =
     (\<forall>t. \<not> isl (fst (render_template env fs tp r t)) \<and> \<not> isl (fst (render_subject env subj r t)))"

text \<open>
  The order of the worker's events, as an automaton over the events that are not log
  entries. For each recipient in turn: the progress signal \<open>(i + 1, total)\<close>, the
  status line, then either a failure signal at once; or the request for a connection
  followed by a failure signal; or the request for a connection, the hand-over of the
  message to it and the signal for that recipient.
\<close>

datatype phase = Idle | Announced | Started | Connecting | Handed

fun in_order :: "nat \<Rightarrow> nat \<Rightarrow> recipient list \<Rightarrow> phase \<Rightarrow> event list \<Rightarrow> bool" where
  "in_order n i rs ph [] = (rs = [] \<and> ph = Idle)"
| "in_order n i rs ph (e # evs) =
     (case rs of
        [] \<Rightarrow> False
      | r # rest \<Rightarrow>
          (case (ph, e) of
             (Idle, ProgressUpdated a b) \<Rightarrow>
               a = i + 1 \<and> b = n \<and> in_order n i rs Announced evs
           | (Announced, StatusUpdated s) \<Rightarrow>
               s = ''Sending to '' @ dict_get r ''email'' ''Unknown'' @ ''...''
               \<and> in_order n i rs Started evs
           | (Started, SmtpConnect) \<Rightarrow> in_order n i rs Connecting evs
           | (Started, EmailSentSignal addr ok err) \<Rightarrow>
               addr = dict_get r ''email'' ''Unknown'' \<and> \<not> ok \<and> in_order n (i + 1) rest Idle evs
           | (Connecting, SmtpSend m) \<Rightarrow> in_order n i rs Handed evs
           | (Connecting, EmailSentSignal addr ok err) \<Rightarrow>
               addr = dict_get r ''email'' ''Unknown'' \<and> \<not> ok \<and> in_order n (i + 1) rest Idle evs
           | (Handed, EmailSentSignal addr ok err) \<Rightarrow>
               addr = dict_get r ''email'' ''Unknown'' \<and> in_order n (i + 1) rest Idle evs
           | _ \<Rightarrow> False))"

fun sent_to :: "event \<Rightarrow> string" where
  "sent_to (EmailSentSignal r ok m) = r"
| "sent_to e = []"

section \<open>Concrete inputs of the examples\<close>

text \<open>An environment without Jinja2, whose sniffer detects nothing and whose mail
  server accepts every connection and every message, a file of 30 MB, and a handler
  with the default limit of 25 MB.\<close>

definition stub_env :: env where
  "stub_env = \<lparr>guess_type = (\<lambda>p. (None, None)), decode_utf8_replace = (\<lambda>b. b), jinja2 = None,
     repr_list = (\<lambda>l. []), sniff = (\<lambda>s. None), smtp_connect = (\<lambda>c n. None),
     smtp_send_message = (\<lambda>c n m. None), smtp_quit = (\<lambda>c n. None)\<rparr>"

definition big_file :: file_obj where
  "big_file = \<lparr>getsize = 30 * 1024 * 1024, read_text = Inl (UnicodeDecodeError ''binary''),
     read_bytes = Inr [], read_sample = Inl (UnicodeDecodeError ''binary''),
     csv_rows = (\<lambda>d. ([], None))\<rparr>"

definition big_fs :: filesystem where
  "big_fs = (\<lambda>p. if p = ''big.bin'' then Some (RegularFile big_file) else None)"

definition handler_25 :: attachment_handler where
  "handler_25 = \<lparr>max_size_mb = 25\<rparr>"

text \<open>Recipient files, given by the rows \<^verbatim>\<open>csv.reader\<close> yields with a comma as the
  delimiter: one whose last row has only blank cells, and one with an empty row and a
  short row.\<close>

definition csv_file_obj :: "string list list \<Rightarrow> file_obj" where
  "csv_file_obj rows = \<lparr>getsize = 0, read_text = Inr [], read_bytes = Inr [],
     read_sample = Inr [], csv_rows = (\<lambda>d. if d = CHR '','' then (rows, None) else ([], None))\<rparr>"







text \<open>A campaign: the configuration, a template file, recipient files of one and of
  five rows and one without an \<^verbatim>\<open>email\<close> column, a server that rejects the third
  message, one that refuses the third connection, and two ways the stop flag can be
  read.\<close>

definition demo_smtp :: smtp_config where
  "demo_smtp = \<lparr>server = ''smtp.example.com'', port = 587, username = ''sender@example.com'',
     password = ''secret'', use_tls = True, use_ssl = False, timeout = 30\<rparr>"

definition demo_config :: app_config where
  "demo_config = \<lparr>smtp = demo_smtp, csv_recipients = ''r.csv'', email_template = ''template.txt'',
     default_subject = ''Hello {{name}}'', sender_name = None\<rparr>"

definition text_file_obj :: "string \<Rightarrow> file_obj" where
  "text_file_obj s = \<lparr>getsize = length s, read_text = Inr s, read_bytes = Inr s,
     read_sample = Inr (take 1024 s), csv_rows = (\<lambda>d. ([], None))\<rparr>"

definition campaign_fs :: "string list list \<Rightarrow> filesystem" where
  "campaign_fs rows = (\<lambda>p.
     if p = ''r.csv'' then Some (RegularFile (csv_file_obj rows))
     else if p = ''template.txt'' then Some (RegularFile (text_file_obj ''Dear {{name}}''))
     else None)"



definition counting_env :: env where
  "counting_env = stub_env\<lparr>jinja2 := Some (\<lambda>n template_content data. Inr (show_nat n))\<rparr>"

definition one_row :: "string list list" where
  "one_row = [[''name'', ''email''], [''Jane'', ''jane@example.com'']]"

definition jane :: recipient where
  "jane = [(Some ''name'', ''Jane''), (Some ''email'', ''jane@example.com'')]"

definition five_rows :: "string list list" where
  "five_rows = [[''name'', ''email''], [''Ann'', ''ann@example.com''], [''Bob'', ''bob@example.com''],
     [''Carol'', ''carol@example.com''], [''Dan'', ''dan@example.com''], [''Eve'', ''eve@example.com'']]"

definition five_recipients :: "recipient list" where
  "five_recipients =
     [[(Some ''name'', ''Ann''), (Some ''email'', ''ann@example.com'')],
      [(Some ''name'', ''Bob''), (Some ''email'', ''bob@example.com'')],
      [(Some ''name'', ''Carol''), (Some ''email'', ''carol@example.com'')],
      [(Some ''name'', ''Dan''), (Some ''email'', ''dan@example.com'')],
      [(Some ''name'', ''Eve''), (Some ''email'', ''eve@example.com'')]]"

definition fail_third_env :: env where
  "fail_third_env = stub_env\<lparr>smtp_send_message :=
     (\<lambda>c n m. if n = 2 then Some ''550 rejected'' else None)\<rparr>"

definition refuse_third_env :: env where
  "refuse_third_env = stub_env\<lparr>smtp_connect :=
     (\<lambda>c n. if n = 2 then Some (OSError ''[Errno 111] Connection refused'') else None)\<rparr>"

definition no_email_rows :: "string list list" where
  "no_email_rows = [[''name'', ''address''], [''Jane'', ''jane@example.com''],
     [''Bob'', ''bob@example.com''], [''Carol'', ''carol@example.com'']]"

definition no_email_recipients :: "recipient list" where
  "no_email_recipients =
     [[(Some ''name'', ''Jane''), (Some ''address'', ''jane@example.com'')],
      [(Some ''name'', ''Bob''), (Some ''address'', ''bob@example.com'')],
      [(Some ''name'', ''Carol''), (Some ''address'', ''carol@example.com'')]]"

definition never_stop :: "nat \<Rightarrow> bool" where
  "never_stop i = False"

definition stop_from :: "nat \<Rightarrow> nat \<Rightarrow> bool" where
  "stop_from k i = (k \<le> i)"

section \<open>Rendering: sequential replacement\<close>

lemma render_template_gui_eq: "render_template_gui s d = basic_template_replace s d"
  by (induction s d rule: basic_template_replace.induct) simp_all

lemma replace_from_self: "p \<noteq> [] \<Longrightarrow> replace_from p v (p @ s) = v @ replace_from p v s"
  by (cases p) simp_all

lemma replace_from_other_head:
  "p \<noteq> [] \<Longrightarrow> hd p \<noteq> c \<Longrightarrow> replace_from p v (c # s) = c # replace_from p v s"
  by (cases p) simp_all

lemma replace_from_skip:
  "p \<noteq> [] \<Longrightarrow> hd p \<notin> set l \<Longrightarrow> replace_from p v (l @ s) = l @ replace_from p v s"
  by (induction l) (simp_all del: replace_from.simps add: replace_from_other_head)

lemma prefix_close_eq:
  "CHR ''}'' \<notin> set k \<Longrightarrow> CHR ''}'' \<notin> set k' \<Longrightarrow>
   prefix (k @ CHR ''}'' # r) (k' @ CHR ''}'' # r') \<Longrightarrow> k = k'"
proof (induction k arbitrary: k')
  case Nil
  then show ?case by (cases k') auto
next
  case (Cons a k)
  then show ?case by (cases k') auto
qed

text \<open>A placeholder of another name is stepped over: no occurrence of the pattern
  starts inside it.\<close>

lemma replace_from_placeholder_other:
  assumes "CHR ''}'' \<notin> set k" "CHR ''}'' \<notin> set n" "CHR ''{'' \<notin> set n" "k \<noteq> n"
  shows "replace_from (''{{'' @ k @ ''}}'') v (''{{'' @ n @ ''}}'' @ s)
         = ''{{'' @ n @ ''}}'' @ replace_from (''{{'' @ k @ ''}}'') v s"
proof -
  let ?p = "''{{'' @ k @ ''}}''"
  have np: "\<not> prefix ?p (''{{'' @ n @ ''}}'' @ s)"
    using assms prefix_close_eq[of k n "''}''" "CHR ''}'' # s"] by auto
  have hd2: "\<not> prefix ?p (CHR ''{'' # n @ ''}}'' @ s)"
    using assms by (cases n) auto
  have step1: "replace_from ?p v (''{{'' @ n @ ''}}'' @ s)
        = CHR ''{'' # replace_from ?p v (CHR ''{'' # n @ ''}}'' @ s)"
    using np by simp
  have step2: "replace_from ?p v (CHR ''{'' # n @ ''}}'' @ s)
        = CHR ''{'' # replace_from ?p v (n @ ''}}'' @ s)"
    using hd2 by simp
  have step3: "replace_from ?p v ((n @ ''}}'') @ s) = (n @ ''}}'') @ replace_from ?p v s"
    by (rule replace_from_skip) (use assms in auto)
  show ?thesis using step1 step2 step3 by simp
qed

lemma replace_from_segments:
  assumes "\<forall>s. Lit s \<in> set segs \<longrightarrow> CHR ''{'' \<notin> set s"
      and "\<forall>n. Ph n \<in> set segs \<longrightarrow> CHR ''{'' \<notin> set n \<and> CHR ''}'' \<notin> set n"
      and "CHR ''}'' \<notin> set k"
  shows "replace_from (''{{'' @ k @ ''}}'') v (template_text segs)
         = template_text (map (\<lambda>s. if s = Ph k then Lit v else s) segs)"
  using assms(1,2)
proof (induction segs)
  case Nil
  then show ?case by (simp add: template_text_def)
next
  case (Cons sg segs)
  have IH: "replace_from (''{{'' @ k @ ''}}'') v (template_text segs)
         = template_text (map (\<lambda>s. if s = Ph k then Lit v else s) segs)"
    using Cons by auto
  show ?case
  proof (cases sg)
    case (Lit l)
    then have "CHR ''{'' \<notin> set l" using Cons.prems by auto
    then have "replace_from (''{{'' @ k @ ''}}'') v (l @ template_text segs)
          = l @ replace_from (''{{'' @ k @ ''}}'') v (template_text segs)"
      by (intro replace_from_skip) auto
    then show ?thesis using Lit IH by (simp add: template_text_def)
  next
    case (Ph n)
    then have n: "CHR ''{'' \<notin> set n" "CHR ''}'' \<notin> set n" using Cons.prems by auto
    show ?thesis
    proof (cases "k = n")
      case True
      have "replace_from (''{{'' @ k @ ''}}'') v ((''{{'' @ k @ ''}}'') @ template_text segs)
          = v @ replace_from (''{{'' @ k @ ''}}'') v (template_text segs)"
        by (rule replace_from_self) simp
      then show ?thesis using Ph True IH by (simp add: template_text_def)
    next
      case False
      have "replace_from (''{{'' @ k @ ''}}'') v (''{{'' @ n @ ''}}'' @ template_text segs)
          = ''{{'' @ n @ ''}}'' @ replace_from (''{{'' @ k @ ''}}'') v (template_text segs)"
        using replace_from_placeholder_other[OF assms(3) n(2) n(1) False] .
      then show ?thesis using Ph False IH by (simp add: template_text_def)
    qed
  qed
qed

lemma basic_template_replace_segments:
  assumes "\<forall>s. Lit s \<in> set segs \<longrightarrow> CHR ''{'' \<notin> set s"
      and "\<forall>n. Ph n \<in> set segs \<longrightarrow> CHR ''{'' \<notin> set n \<and> CHR ''}'' \<notin> set n"
      and "\<forall>(k, v) \<in> set d. CHR ''}'' \<notin> set (str_key k) \<and> CHR ''{'' \<notin> set v"
  shows "basic_template_replace (template_text segs) d = concat (map (subst_segment d) segs)"
  using assms
proof (induction d arbitrary: segs)
  case Nil
  have "subst_segment [] x = seg_text x" for x
    by (cases x) simp_all
  then show ?case by (simp add: template_text_def)
next
  case (Cons kv d)
  obtain k v where kv: "kv = (k, v)" by (cases kv)
  let ?segs' = "map (\<lambda>s. if s = Ph (str_key k) then Lit v else s) segs"
  have kv_ok: "CHR ''}'' \<notin> set (str_key k)" "CHR ''{'' \<notin> set v"
    using Cons.prems(3) kv by auto
  have step: "py_replace (template_text segs) (placeholder k) v = template_text ?segs'"
    using replace_from_segments[OF Cons.prems(1) Cons.prems(2) kv_ok(1), of v]
    by (simp add: py_replace_def placeholder_def)
  have IH': "basic_template_replace (template_text ?segs') d = concat (map (subst_segment d) ?segs')"
    using Cons.prems kv_ok by (intro Cons.IH) auto
  have pt: "subst_segment d (if x = Ph (str_key k) then Lit v else x)
              = subst_segment ((k, v) # d) x" for x
    by (cases x) auto
  have "basic_template_replace (template_text segs) (kv # d)
          = basic_template_replace (template_text ?segs') d"
    using step kv by simp
  also have "\<dots> = concat (map (subst_segment d) ?segs')"
    by (rule IH')
  also have "\<dots> = concat (map (subst_segment (kv # d)) segs)"
    by (simp only: kv map_map o_def pt)
  finally show ?case .
qed


text \<open>
  Claim C5, as amended. Under the basic strategy (\<^verbatim>\<open>_basic_template_replace\<close> and the
  GUI's \<^verbatim>\<open>render_template\<close>), for a template made of literal pieces and placeholders
  \<^verbatim>\<open>{{name}}\<close>: if no literal piece and no value of the record contains an opening
  brace, the placeholder names contain no brace and no column name of the record
  contains a closing brace, then every placeholder whose column is in the record is
  replaced by that column's value and every other placeholder is left as its
  literal text.
\<close>

theorem basic_render_placeholders:
  assumes "\<forall>s. Lit s \<in> set segs \<longrightarrow> CHR ''{'' \<notin> set s"
      and "\<forall>n. Ph n \<in> set segs \<longrightarrow> CHR ''{'' \<notin> set n \<and> CHR ''}'' \<notin> set n"
      and "\<forall>(k, v) \<in> set d. CHR ''}'' \<notin> set (str_key k) \<and> CHR ''{'' \<notin> set v"
  shows "basic_template_replace (template_text segs) d = concat (map (subst_segment d) segs)
       \<and> render_template_gui (template_text segs) d = concat (map (subst_segment d) segs)"
  using basic_template_replace_segments[OF assms] by (simp add: render_template_gui_eq)

text \<open>The two examples of the claim, through the theorem: \<^verbatim>\<open>Hello {{name}}\<close> and
  \<^verbatim>\<open>Hi {{missing}}\<close> against the record \<^verbatim>\<open>{name: Jane}\<close>.\<close>

theorem basic_render_placeholders_witness:
  "template_text [Lit ''Hello '', Ph ''name''] = ''Hello {{name}}''
   \<and> basic_template_replace (template_text [Lit ''Hello '', Ph ''name''])
         [(Some ''name'', ''Jane'')] = ''Hello Jane''
   \<and> template_text [Lit ''Hi '', Ph ''missing''] = ''Hi {{missing}}''
   \<and> basic_template_replace (template_text [Lit ''Hi '', Ph ''missing''])
         [(Some ''name'', ''Jane'')] = ''Hi {{missing}}''"
proof -
  have hello: "basic_template_replace (template_text [Lit ''Hello '', Ph ''name''])
         [(Some ''name'', ''Jane'')] = ''Hello Jane''"
    using basic_render_placeholders[of "[Lit ''Hello '', Ph ''name'']" "[(Some ''name'', ''Jane'')]"]
    by (simp add: str_key_def)
  have hi: "basic_template_replace (template_text [Lit ''Hi '', Ph ''missing''])
         [(Some ''name'', ''Jane'')] = ''Hi {{missing}}''"
    using basic_render_placeholders[of "[Lit ''Hi '', Ph ''missing'']" "[(Some ''name'', ''Jane'')]"]
    by (simp add: str_key_def)
  show ?thesis using hello hi by (simp add: template_text_def)
qed

text \<open>Without the condition on the values the equation of the theorem fails: the value
  of column \<^verbatim>\<open>a\<close> is \<^verbatim>\<open>{{b}}\<close>, and the output is not that value.\<close>

theorem basic_render_value_with_placeholder:
  "basic_template_replace (template_text [Ph ''a'']) [(Some ''a'', ''{{b}}''), (Some ''b'', ''x'')]
     \<noteq> concat (map (subst_segment [(Some ''a'', ''{{b}}''), (Some ''b'', ''x'')]) [Ph ''a''])"
  by (simp add: template_text_def py_replace_def placeholder_def str_key_def)







section \<open>AttachmentHandler: the size limit\<close>

lemma show_nat_digit: "n < 10 \<Longrightarrow> show_nat n = [digit_char n]"
  by (simp add: show_nat.simps)

lemma str_float_mb_max: "str_float_mb (max_size_bytes h) = show_nat (max_size_mb h) @ ''.0''"
  by (simp add: str_float_mb_def max_size_bytes_def)

lemma round_nearest:
  fixes x m :: nat
  assumes "0 < m"
  defines "q \<equiv> x div m" and "r \<equiv> x mod m"
  defines "tenths \<equiv> (if 2 * r > m \<or> (2 * r = m \<and> odd q) then q + 1 else q)"
  shows "2 * \<bar>int tenths * int m - int x\<bar> \<le> int m"
proof -
  have x: "int x = int q * int m + int r"
    unfolding q_def r_def by (metis div_mult_mod_eq of_nat_add of_nat_mult)
  have "r < m" unfolding r_def using assms(1) by simp
  then show ?thesis unfolding tenths_def x by (auto simp: algebra_simps)
qed

lemma round_tenths:
  fixes n :: nat
  defines "q \<equiv> (n * 10) div (1024 * 1024)" and "r \<equiv> (n * 10) mod (1024 * 1024)"
  defines "tenths \<equiv> (if 2 * r > 1024 * 1024 \<or> (2 * r = 1024 * 1024 \<and> odd q) then q + 1 else q)"
  shows "2 * \<bar>int tenths * 1048576 - 10 * int n\<bar> \<le> 1048576"
  using round_nearest[of "1024 * 1024" "n * 10"] unfolding tenths_def q_def r_def
  by (simp add: mult.commute)

text \<open>
  Claim C6, as amended. When the size of an attachment file exceeds the limit (a whole
  number of megabytes), \<^verbatim>\<open>create_attachment\<close> raises \<^verbatim>\<open>EmailSendError\<close> with the
  message \<^verbatim>\<open>File too large: W.TMB (max: M.0MB)\<close>, where \<open>W.T\<close> is the size in
  megabytes rounded to the nearest tenth and \<open>M\<close> is the limit in megabytes; nothing
  is logged. The bounds on the two sizes are those under which the float arithmetic
  of the source is exact.
\<close>

theorem create_attachment_too_large:
  assumes "fs file_path = Some (RegularFile f)" and "getsize f > max_size_bytes h"
      and "getsize f < 2 ^ 53" and "max_size_mb h < 2 ^ 33"
  shows "\<exists>whole tenth. tenth < 10
      \<and> create_attachment env fs h file_path t =
          (Inl (EmailSendError (''File too large: '' @ show_nat whole @ ''.'' @ [digit_char tenth]
                  @ ''MB (max: '' @ show_nat (max_size_mb h) @ ''.0MB)'')), t)
      \<and> 2 * \<bar>int (10 * whole + tenth) * 1048576 - 10 * int (getsize f)\<bar> \<le> 1048576"
proof -
  define q where "q = (getsize f * 10) div (1024 * 1024)"
  define r where "r = (getsize f * 10) mod (1024 * 1024)"
  define tenths where
    "tenths = (if 2 * r > 1024 * 1024 \<or> (2 * r = 1024 * 1024 \<and> odd q) then q + 1 else q)"
  have fmt: "format_1f_mb (getsize f)
               = show_nat (tenths div 10) @ ''.'' @ [digit_char (tenths mod 10)]"
    by (simp add: format_1f_mb_def Let_def q_def r_def tenths_def show_nat_digit)
  have near: "2 * \<bar>int tenths * 1048576 - 10 * int (getsize f)\<bar> \<le> 1048576"
    using round_tenths[of "getsize f"] unfolding tenths_def q_def r_def by simp
  have "create_attachment env fs h file_path t =
          (Inl (EmailSendError (''File too large: '' @ show_nat (tenths div 10) @ ''.''
                  @ [digit_char (tenths mod 10)]
                  @ ''MB (max: '' @ show_nat (max_size_mb h) @ ''.0MB)'')), t)"
    using assms(1,2) by (simp add: create_attachment_def fmt str_float_mb_max)
  moreover have "tenths mod 10 < 10" by simp
  moreover have "10 * (tenths div 10) + tenths mod 10 = tenths" by simp
  ultimately show ?thesis using near by metis
qed

text \<open>The theorem at a file of 30 MB against the limit of 25 MB.\<close>

theorem create_attachment_too_large_witness:
  "big_fs ''big.bin'' = Some (RegularFile big_file)
   \<and> getsize big_file > max_size_bytes handler_25
   \<and> getsize big_file < 2 ^ 53 \<and> max_size_mb handler_25 < 2 ^ 33
   \<and> (\<exists>whole tenth. tenth < 10
      \<and> create_attachment stub_env big_fs handler_25 ''big.bin'' [] =
          (Inl (EmailSendError (''File too large: '' @ show_nat whole @ ''.'' @ [digit_char tenth]
                  @ ''MB (max: '' @ show_nat (max_size_mb handler_25) @ ''.0MB)'')), [])
      \<and> 2 * \<bar>int (10 * whole + tenth) * 1048576 - 10 * int (getsize big_file)\<bar> \<le> 1048576)"
proof -
  have h1: "big_fs ''big.bin'' = Some (RegularFile big_file)"
    by (simp add: big_fs_def)
  have h2: "getsize big_file > max_size_bytes handler_25"
    by (simp add: big_file_def handler_25_def max_size_bytes_def)
  have h3: "getsize big_file < 2 ^ 53"
    by (simp add: big_file_def)
  have h4: "max_size_mb handler_25 < 2 ^ 33"
    by (simp add: handler_25_def)
  show ?thesis
    using h1 h2 h3 h4
      create_attachment_too_large[where fs = big_fs and file_path = "''big.bin''"
        and f = big_file and h = handler_25 and env = stub_env and t = "[]"]
    by blast
qed

text \<open>The message for 30 MB against 25 MB prints the limit as \<^verbatim>\<open>25.0MB\<close>; the text
  \<^verbatim>\<open>25MB\<close> does not occur in it.\<close>

theorem create_attachment_30_of_25_message:
  "create_attachment stub_env big_fs handler_25 ''big.bin'' [] =
     (Inl (EmailSendError ''File too large: 30.0MB (max: 25.0MB)''), [])
   \<and> \<not> sublist ''25MB'' ''File too large: 30.0MB (max: 25.0MB)''"
proof -
  have "create_attachment stub_env big_fs handler_25 ''big.bin'' [] =
     (Inl (EmailSendError ''File too large: 30.0MB (max: 25.0MB)''), [])"
    by (simp add: create_attachment_def big_fs_def big_file_def handler_25_def max_size_bytes_def
          format_1f_mb_def str_float_mb_def show_nat.simps digit_char_def Let_def)
  moreover have "\<not> sublist ''25MB'' ''File too large: 30.0MB (max: 25.0MB)''"
    by (simp add: sublist_Cons_right)
  ultimately show ?thesis by simp
qed

section \<open>CSVReader: the rows that become records\<close>

lemma py_strip_Nil: "py_strip [] = []"
  by (simp add: py_strip_def)










lemma clean_cell_VStr: "(if truthy (VStr c) then py_strip (py_str env (VStr c)) else []) = py_strip c"
  by (simp add: py_str_def py_strip_Nil)




lemma strip_examples:
  "py_strip ''   '' = []" "py_strip '' '' = []" "py_strip ''Jane'' = ''Jane''"
  "py_strip ''jane@example.com'' = ''jane@example.com''" "py_strip '' Bob '' = ''Bob''"
  by (simp_all add: py_strip_def py_isspace_def)




section \<open>What a call adds to the trace\<close>

lemma logged_internal: "is_logged e \<Longrightarrow> is_internal e"
  by (cases e) simp_all

lemma logs_internal: "list_all is_logged evs \<Longrightarrow> list_all is_internal evs"
  by (induction evs) (simp_all add: logged_internal)

lemma internal_not_smtp: "is_internal e \<Longrightarrow> \<not> is_smtp_connect e \<and> \<not> is_smtp_send e"
  by (cases e) simp_all

lemma smtp_calls_internal: "list_all is_internal evs \<Longrightarrow> smtp_calls (t @ evs) = smtp_calls t"
  by (induction evs) (simp_all add: smtp_calls_def internal_not_smtp)

lemma smtp_sends_internal: "list_all is_internal evs \<Longrightarrow> smtp_sends (t @ evs) = smtp_sends t"
  by (induction evs) (simp_all add: smtp_sends_def internal_not_smtp)

lemma smtp_calls_logs: "list_all is_logged evs \<Longrightarrow> smtp_calls (t @ evs) = smtp_calls t"
  using smtp_calls_internal logs_internal by blast

lemma smtp_sends_logs: "list_all is_logged evs \<Longrightarrow> smtp_sends (t @ evs) = smtp_sends t"
  using smtp_sends_internal logs_internal by blast

lemma nonlog_logs: "list_all is_logged evs \<Longrightarrow> nonlog evs = []"
  by (induction evs) (simp_all add: nonlog_def)

lemma nonlog_simps:
  "nonlog [] = []"
  "nonlog (Logged c # evs) = nonlog evs"
  "nonlog (JinjaRender # evs) = JinjaRender # nonlog evs"
  "nonlog (SmtpConnect # evs) = SmtpConnect # nonlog evs"
  "nonlog (SmtpSend m # evs) = SmtpSend m # nonlog evs"
  "nonlog (ProgressUpdated a b # evs) = ProgressUpdated a b # nonlog evs"
  "nonlog (StatusUpdated s # evs) = StatusUpdated s # nonlog evs"
  "nonlog (EmailSentSignal r ok m' # evs) = EmailSentSignal r ok m' # nonlog evs"
  "nonlog (FinishedSignal res # evs) = FinishedSignal res # nonlog evs"
  "nonlog (ErrorOccurred s # evs) = ErrorOccurred s # nonlog evs"
  by (simp_all add: nonlog_def)

lemma nonlog_append: "nonlog (xs @ ys) = nonlog xs @ nonlog ys"
  by (simp add: nonlog_def)

text \<open>The transitions of the automaton \<open>in_order\<close>, one by one.\<close>

lemma in_order_steps:
  "in_order n i [] Idle [] = True"
  "in_order n i (r # rs) ph [] = False"
  "in_order n i [] ph (e # evs) = False"
  "in_order n i (r # rs) Idle (ProgressUpdated a b # evs) =
     (a = i + 1 \<and> b = n \<and> in_order n i (r # rs) Announced evs)"
  "in_order n i (r # rs) Announced (StatusUpdated s # evs) =
     (s = ''Sending to '' @ dict_get r ''email'' ''Unknown'' @ ''...''
      \<and> in_order n i (r # rs) Started evs)"
  "in_order n i (r # rs) Started (SmtpConnect # evs) = in_order n i (r # rs) Connecting evs"
  "in_order n i (r # rs) Started (EmailSentSignal addr ok err # evs) =
     (addr = dict_get r ''email'' ''Unknown'' \<and> \<not> ok \<and> in_order n (i + 1) rs Idle evs)"
  "in_order n i (r # rs) Connecting (SmtpSend m # evs) = in_order n i (r # rs) Handed evs"
  "in_order n i (r # rs) Connecting (EmailSentSignal addr ok err # evs) =
     (addr = dict_get r ''email'' ''Unknown'' \<and> \<not> ok \<and> in_order n (i + 1) rs Idle evs)"
  "in_order n i (r # rs) Handed (EmailSentSignal addr ok err # evs) =
     (addr = dict_get r ''email'' ''Unknown'' \<and> in_order n (i + 1) rs Idle evs)"
  "in_order n i (r # rs) Started (SmtpSend m # evs) = False"
  "in_order n i (r # rs) Handed (SmtpSend m # evs) = False"
  "in_order n i (r # rs) Handed (SmtpConnect # evs) = False"
  "in_order n i (r # rs) Idle (EmailSentSignal addr ok err # evs) = False"
  by simp_all

lemma smtp_calls_append: "smtp_calls (xs @ ys) = smtp_calls xs + smtp_calls ys"
  by (simp add: smtp_calls_def)

lemma smtp_sends_append: "smtp_sends (xs @ ys) = smtp_sends xs + smtp_sends ys"
  by (simp add: smtp_sends_def)

lemma smtp_calls_nonlog: "smtp_calls (nonlog evs) = smtp_calls evs"
proof -
  have "is_smtp_connect e \<Longrightarrow> \<not> is_logged e" for e by (cases e) simp_all
  then have "filter is_smtp_connect (filter (\<lambda>e. \<not> is_logged e) evs) = filter is_smtp_connect evs"
    by (induction evs) auto
  then show ?thesis by (simp add: smtp_calls_def nonlog_def)
qed

lemma smtp_sends_nonlog: "smtp_sends (nonlog evs) = smtp_sends evs"
proof -
  have "is_smtp_send e \<Longrightarrow> \<not> is_logged e" for e by (cases e) simp_all
  then have "filter is_smtp_send (filter (\<lambda>e. \<not> is_logged e) evs) = filter is_smtp_send evs"
    by (induction evs) auto
  then show ?thesis by (simp add: smtp_sends_def nonlog_def)
qed

lemma smtp_counts_Nil: "smtp_calls [] = 0" "smtp_sends [] = 0"
  by (simp_all add: smtp_calls_def smtp_sends_def)

lemma create_attachment_trace:
  "\<exists>evs. snd (create_attachment env fs h p t) = t @ evs \<and> list_all is_logged evs"
  by (auto simp: create_attachment_def Let_def
           split: option.splits fs_node.splits sum.splits prod.splits)

lemma create_attachment_invalid:
  "invalid_attachment fs h p \<Longrightarrow> \<exists>e. create_attachment env fs h p t = (Inl e, t)"
  by (auto simp: create_attachment_def invalid_attachment_def Let_def
           split: option.splits fs_node.splits)

lemma attach_all_trace:
  "\<exists>evs. snd (attach_all env fs h ps parts n t) = t @ evs \<and> list_all is_logged evs"
proof (induction ps arbitrary: parts n t)
  case Nil
  then show ?case by simp
next
  case (Cons p ps)
  obtain r t1 where c: "create_attachment env fs h p t = (r, t1)"
    by (cases "create_attachment env fs h p t")
  obtain evs1 where e1: "t1 = t @ evs1" "list_all is_logged evs1"
    using create_attachment_trace[of env fs h p t] c by auto
  show ?case
  proof (cases r)
    case (Inl e)
    then show ?thesis using c e1 by simp
  next
    case (Inr a)
    obtain evs2 where e2:
      "snd (attach_all env fs h ps (parts @ [a]) (n + 1) t1) = t1 @ evs2" "list_all is_logged evs2"
      using Cons.IH by blast
    then show ?thesis using c e1 Inr by simp
  qed
qed

lemma attach_all_invalid:
  "\<exists>p \<in> set ps. invalid_attachment fs h p \<Longrightarrow>
   \<exists>e. fst (attach_all env fs h ps parts n t) = Inl e"
proof (induction ps arbitrary: parts n t)
  case Nil
  then show ?case by simp
next
  case (Cons p ps)
  obtain r t1 where c: "create_attachment env fs h p t = (r, t1)"
    by (cases "create_attachment env fs h p t")
  show ?case
  proof (cases r)
    case (Inl e)
    then show ?thesis using c by simp
  next
    case (Inr a)
    then have "\<not> invalid_attachment fs h p"
      using c create_attachment_invalid[of fs h p env t] by auto
    then have "\<exists>p \<in> set ps. invalid_attachment fs h p" using Cons.prems by auto
    then show ?thesis using Cons.IH c Inr by simp
  qed
qed

text \<open>The last step of \<^verbatim>\<open>send_email\<close>, from the trace \<open>t2\<close> at which the message is
  built: a connection is asked for, the message is handed over when the connection is
  made and not otherwise, and the call succeeds when the whole exchange does.\<close>

lemma send_email_core:
  assumes "recipients = (case rcp of RStr s \<Rightarrow> [s] | RList l \<Rightarrow> l | RNone \<Rightarrow> [])"
      and "recipients \<noteq> []"
      and "attach_all env fs h (case atts of Some l \<Rightarrow> l | None \<Rightarrow> [])
             (case html of
                Some html' \<Rightarrow>
                  if html' \<noteq> [] then [text_part body ''plain'', text_part html' ''html'']
                  else [text_part body ''plain'']
              | None \<Rightarrow> [text_part body ''plain''])
             0
             (t @ [Logged (LogInfo (''Sending email to: '' @ py_join '', '' recipients)),
                   Logged (LogSmtpConnection (server sc) (port sc) (username sc))])
           = (Inr (parts, cnt), t2)"
      and "msg = \<lparr>msg_from = (case sn of
                                 Some n \<Rightarrow> if n \<noteq> [] then n @ '' <'' @ sender @ ''>'' else sender
                               | None \<Rightarrow> sender),
                  msg_to = py_join '', '' recipients, msg_subject = subj, msg_parts = parts\<rparr>"
  shows "\<exists>tail. send_email env fs h sc sender rcp subj body html atts sn t
           = ((case transport_error env sc (smtp_calls t2) msg of
                 None \<Rightarrow> Inr True
               | Some m \<Rightarrow> Inl (EmailSendError (''SMTP error: '' @ m))),
              t2 @ SmtpConnect # tail)
         \<and> (if smtp_connect env sc (smtp_calls t2) = None
            then \<exists>logs. tail = SmtpSend msg # logs \<and> list_all is_logged logs
            else list_all is_logged tail)"
proof (cases "smtp_connect env sc (smtp_calls t2)")
  case (Some e)
  then show ?thesis
    using assms
    by (simp add: send_email_def create_smtp_connection_def transport_error_def Let_def
          list_all_iff)
next
  case None
  note conn = None
  show ?thesis
  proof (cases "smtp_send_message env sc (smtp_calls t2) msg")
    case (Some m)
    then show ?thesis
      using assms conn
      by (simp add: send_email_def create_smtp_connection_def transport_error_def Let_def
            list_all_iff)
  next
    case None
    note sent = None
    show ?thesis
    proof (cases "smtp_quit env sc (smtp_calls t2)")
      case (Some mq)
      then show ?thesis
        using assms conn sent
        by (auto simp: send_email_def create_smtp_connection_def transport_error_def Let_def
              list_all_iff)
    next
      case None
      then show ?thesis
        using assms conn sent
        by (simp add: send_email_def create_smtp_connection_def transport_error_def Let_def
              list_all_iff)
    qed
  qed
qed

lemma transport_error_connect:
  "smtp_connect env sc n \<noteq> None \<Longrightarrow> transport_error env sc n msg \<noteq> None"
  by (auto simp: transport_error_def split: option.splits)

text \<open>\<^verbatim>\<open>send_email\<close>: whatever the arguments, the trace grows by log entries, at most one
  request for a connection and, after it, at most one hand-over; and the call succeeds
  only after a hand-over.\<close>

lemma send_email_trace:
  "\<exists>evs. snd (send_email env fs h sc sender rcp subj body html atts sn t) = t @ evs
     \<and> ((nonlog evs = [] \<and> isl (fst (send_email env fs h sc sender rcp subj body html atts sn t)))
        \<or> (nonlog evs = [SmtpConnect]
            \<and> isl (fst (send_email env fs h sc sender rcp subj body html atts sn t)))
        \<or> (\<exists>msg. nonlog evs = [SmtpConnect, SmtpSend msg]))"
proof -
  let ?recipients = "case rcp of RStr s \<Rightarrow> [s] | RList l \<Rightarrow> l | RNone \<Rightarrow> []"
  show ?thesis
  proof (cases "?recipients = []")
    case True
    then show ?thesis by (simp add: send_email_def nonlog_def)
  next
    case False
    let ?head = "[Logged (LogInfo (''Sending email to: '' @ py_join '', '' ?recipients)),
                    Logged (LogSmtpConnection (server sc) (port sc) (username sc))]"
    let ?t1 = "t @ ?head"
    let ?body_parts = "case html of
                 Some html' \<Rightarrow>
                   if html' \<noteq> [] then [text_part body ''plain'', text_part html' ''html'']
                   else [text_part body ''plain'']
               | None \<Rightarrow> [text_part body ''plain'']"
    let ?att = "attach_all env fs h (case atts of Some l \<Rightarrow> l | None \<Rightarrow> []) ?body_parts 0 ?t1"
    obtain r t2 where a: "?att = (r, t2)" by (cases ?att)
    obtain evs2 where e2: "t2 = ?t1 @ evs2" "list_all is_logged evs2"
      using attach_all_trace[of env fs h "case atts of Some l \<Rightarrow> l | None \<Rightarrow> []" ?body_parts 0 ?t1] a
      by auto
    show ?thesis
    proof (cases r)
      case (Inl e)
      have "send_email env fs h sc sender rcp subj body html atts sn t = (Inl e, t2)"
        using False a Inl by (simp add: send_email_def Let_def)
      then show ?thesis using e2 by (simp add: nonlog_append nonlog_logs nonlog_simps)
    next
      case (Inr pc)
      obtain parts cnt where pc: "pc = (parts, cnt)" by (cases pc)
      let ?msg = "\<lparr>msg_from = (case sn of
                                 Some n \<Rightarrow> if n \<noteq> [] then n @ '' <'' @ sender @ ''>'' else sender
                               | None \<Rightarrow> sender),
                  msg_to = py_join '', '' ?recipients, msg_subject = subj, msg_parts = parts\<rparr>"
      let ?res = "case transport_error env sc (smtp_calls t2) ?msg of
                 None \<Rightarrow> Inr True
               | Some m \<Rightarrow> Inl (EmailSendError (''SMTP error: '' @ m))"
      have att: "?att = (Inr (parts, cnt), t2)" using a Inr pc by simp
      obtain tail where s:
        "send_email env fs h sc sender rcp subj body html atts sn t = (?res, t2 @ SmtpConnect # tail)"
        "if smtp_connect env sc (smtp_calls t2) = None
            then \<exists>logs. tail = SmtpSend ?msg # logs \<and> list_all is_logged logs
            else list_all is_logged tail"
        using send_email_core[OF refl False att refl] by blast
      have evs: "snd (send_email env fs h sc sender rcp subj body html atts sn t)
                   = t @ (?head @ evs2 @ SmtpConnect # tail)"
        using s(1) e2(1) by simp
      have nl: "nonlog (?head @ evs2 @ SmtpConnect # tail) = SmtpConnect # nonlog tail"
        using e2(2) by (simp add: nonlog_append nonlog_logs nonlog_simps)
      show ?thesis
      proof (cases "smtp_connect env sc (smtp_calls t2) = None")
        case True
        then obtain logs where l: "tail = SmtpSend ?msg # logs" "list_all is_logged logs"
          using s(2) by auto
        have "nonlog (?head @ evs2 @ SmtpConnect # tail) = [SmtpConnect, SmtpSend ?msg]"
          using nl l by (simp add: nonlog_simps nonlog_logs)
        then show ?thesis using evs by blast
      next
        case False
        then have lg: "list_all is_logged tail" using s(2) by simp
        have "transport_error env sc (smtp_calls t2) ?msg \<noteq> None"
          using False by (rule transport_error_connect)
        then have "isl ?res" by (auto split: option.splits)
        then have "isl (fst (send_email env fs h sc sender rcp subj body html atts sn t))"
          using s(1) by simp
        moreover have "nonlog (?head @ evs2 @ SmtpConnect # tail) = [SmtpConnect]"
          using nl lg by (simp add: nonlog_logs)
        ultimately show ?thesis using evs by blast
      qed
    qed
  qed
qed

lemma send_email_calls:
  "\<exists>evs. snd (send_email env fs h sc sender rcp subj body html atts sn t) = t @ evs
     \<and> smtp_calls evs \<le> 1 \<and> smtp_sends evs \<le> 1"
proof -
  obtain evs where e: "snd (send_email env fs h sc sender rcp subj body html atts sn t) = t @ evs"
     "(nonlog evs = [] \<and> isl (fst (send_email env fs h sc sender rcp subj body html atts sn t)))
        \<or> (nonlog evs = [SmtpConnect]
            \<and> isl (fst (send_email env fs h sc sender rcp subj body html atts sn t)))
        \<or> (\<exists>msg. nonlog evs = [SmtpConnect, SmtpSend msg])"
    using send_email_trace by blast
  have "smtp_calls (nonlog evs) \<le> 1" "smtp_sends (nonlog evs) \<le> 1"
    using e(2) by (auto simp: smtp_calls_def smtp_sends_def)
  then show ?thesis using e(1) smtp_calls_nonlog[of evs] smtp_sends_nonlog[of evs] by auto
qed

lemma render_template_trace:
  "\<exists>evs. snd (render_template env fs p d t) = t @ evs \<and> list_all is_internal evs"
  by (auto simp: render_template_def split: sum.splits option.splits)

lemma render_subject_trace:
  "\<exists>evs. snd (render_subject env subj d t) = t @ evs \<and> list_all is_internal evs"
  by (auto simp: render_subject_def split: option.splits)

lemma read_recipients_trace:
  "\<exists>evs. snd (read_recipients env fs p t) = t @ evs \<and> list_all is_logged evs"
  by (auto simp: read_recipients_def Let_def
           split: option.splits fs_node.splits prod.splits list.splits sum.splits)

lemma read_recipients_nonempty:
  "fst (read_recipients env fs p t) = Inr rs \<Longrightarrow> rs \<noteq> []"
  by (auto simp: read_recipients_def Let_def
           split: option.splits fs_node.splits prod.splits list.splits if_splits sum.splits)

lemma smtp_internal_zero:
  assumes "list_all is_internal evs"
  shows "smtp_calls evs = 0" and "smtp_sends evs = 0"
  using smtp_calls_internal[OF assms, of "[]"] smtp_sends_internal[OF assms, of "[]"]
  by (simp_all add: smtp_calls_def smtp_sends_def)

lemma smtp_log_zero: "smtp_calls [Logged c] = 0" "smtp_sends [Logged c] = 0"
  by (simp_all add: smtp_calls_def smtp_sends_def)

section \<open>Bulk run with an invalid attachment\<close>

lemma send_email_invalid:
  assumes "\<exists>p \<in> set ps. invalid_attachment fs h p"
  shows "\<exists>e evs. send_email env fs h sc sender rcp subj body html (Some ps) sn t = (Inl e, t @ evs)
           \<and> list_all is_logged evs"
proof -
  let ?recipients = "case rcp of RStr s \<Rightarrow> [s] | RList l \<Rightarrow> l | RNone \<Rightarrow> []"
  show ?thesis
  proof (cases "?recipients = []")
    case True
    then show ?thesis by (simp add: send_email_def)
  next
    case False
    let ?t1 = "t @ [Logged (LogInfo (''Sending email to: '' @ py_join '', '' ?recipients)),
                    Logged (LogSmtpConnection (server sc) (port sc) (username sc))]"
    let ?body_parts = "case html of
                 Some html' \<Rightarrow>
                   if html' \<noteq> [] then [text_part body ''plain'', text_part html' ''html'']
                   else [text_part body ''plain'']
               | None \<Rightarrow> [text_part body ''plain'']"
    let ?att = "attach_all env fs h ps ?body_parts 0 ?t1"
    obtain r t2 where a: "?att = (r, t2)" by (cases ?att)
    obtain evs2 where e2: "t2 = ?t1 @ evs2" "list_all is_logged evs2"
      using attach_all_trace[of env fs h ps ?body_parts 0 ?t1] a by auto
    obtain e where e: "r = Inl e"
      using attach_all_invalid[OF assms, of env ?body_parts 0 ?t1] a by auto
    have "send_email env fs h sc sender rcp subj body html (Some ps) sn t = (Inl e, t2)"
      using False a e by (simp add: send_email_def Let_def)
    then show ?thesis using e2 by simp
  qed
qed

lemma bulk_try_invalid:
  assumes "\<exists>p \<in> set ps. invalid_attachment fs h p"
  shows "\<exists>e evs. bulk_try env fs h cfg tp subj (Some ps) i r (res, t) = (Some e, res, t @ evs)
           \<and> list_all is_internal evs"
proof -
  obtain rr t0 where rt: "render_template env fs tp r t = (rr, t0)"
    by (cases "render_template env fs tp r t")
  obtain evs0 where e0: "t0 = t @ evs0" "list_all is_internal evs0"
    using render_template_trace[of env fs tp r t] rt by auto
  show ?thesis
  proof (cases rr)
    case (Inl e)
    then show ?thesis using rt e0 by (simp add: bulk_try_def)
  next
    case (Inr pbody)
    obtain sr t1 where rs: "render_subject env subj r t0 = (sr, t1)"
      by (cases "render_subject env subj r t0")
    obtain evs1 where e1: "t1 = t0 @ evs1" "list_all is_internal evs1"
      using render_subject_trace[of env subj r t0] rs by auto
    show ?thesis
    proof (cases sr)
      case (Inl e)
      then show ?thesis using rt rs e0 e1 Inr by (simp add: bulk_try_def)
    next
      case psub: (Inr psubject)
      show ?thesis
      proof (cases "map_of r (Some ''email'')")
        case None
        then show ?thesis using rt rs e0 e1 Inr psub by (simp add: bulk_try_def)
      next
        case (Some email)
        obtain e evs2 where s:
          "send_email env fs h (smtp cfg) (username (smtp cfg)) (RStr email) psubject pbody None
             (Some ps) (sender_name cfg) t1 = (Inl e, t1 @ evs2)" "list_all is_logged evs2"
          using send_email_invalid[OF assms] by blast
        have "list_all is_internal evs2" using s(2) by (rule logs_internal)
        then show ?thesis using s(1) rt rs e0 e1 Inr psub Some by (simp add: bulk_try_def)
      qed
    qed
  qed
qed

lemma bulk_step_invalid:
  assumes "\<exists>p \<in> set ps. invalid_attachment fs h p"
  shows "\<exists>m evs. bulk_step env fs h cfg tp subj (Some ps) i r (res, t)
             = (res\<lparr>failed := failed res + 1, errors := errors res @ [m]\<rparr>, t @ evs)
           \<and> list_all is_internal evs"
proof -
  obtain e evs where b: "bulk_try env fs h cfg tp subj (Some ps) i r (res, t) = (Some e, res, t @ evs)"
      "list_all is_internal evs"
    using bulk_try_invalid[OF assms] by blast
  let ?m = "''Error sending to '' @ dict_get r ''email'' ''unknown'' @ '': '' @ str_error e"
  show ?thesis
    using b
    by (intro exI[of _ ?m] exI[of _ "evs @ [Logged (LogError ?m)]"])
       (simp add: bulk_step_def Let_def)
qed

lemma bulk_loop_invalid:
  assumes "\<exists>p \<in> set ps. invalid_attachment fs h p"
  shows "\<exists>res' evs. bulk_loop env fs h cfg tp subj (Some ps) i rs (res, t) = (res', t @ evs)
           \<and> list_all is_internal evs \<and> total_r res' = total_r res \<and> sent res' = sent res
           \<and> failed res' = failed res + length rs
           \<and> length (errors res') = length (errors res) + length rs"
proof (induction rs arbitrary: i res t)
  case Nil
  then show ?case by simp
next
  case (Cons r rs)
  obtain m evs where st: "bulk_step env fs h cfg tp subj (Some ps) i r (res, t)
             = (res\<lparr>failed := failed res + 1, errors := errors res @ [m]\<rparr>, t @ evs)"
      "list_all is_internal evs"
    using bulk_step_invalid[OF assms] by blast
  obtain res' evs' where l:
     "bulk_loop env fs h cfg tp subj (Some ps) (i + 1) rs
         (res\<lparr>failed := failed res + 1, errors := errors res @ [m]\<rparr>, t @ evs) = (res', (t @ evs) @ evs')"
     "list_all is_internal evs'"
     "total_r res' = total_r (res\<lparr>failed := failed res + 1, errors := errors res @ [m]\<rparr>)"
     "sent res' = sent (res\<lparr>failed := failed res + 1, errors := errors res @ [m]\<rparr>)"
     "failed res' = failed (res\<lparr>failed := failed res + 1, errors := errors res @ [m]\<rparr>) + length rs"
     "length (errors res') = length (errors (res\<lparr>failed := failed res + 1, errors := errors res @ [m]\<rparr>)) + length rs"
    using Cons.IH by blast
  show ?case
    using st l by (intro exI[of _ res'] exI[of _ "evs @ evs'"]) simp
qed

lemma send_bulk_emails_invalid:
  assumes "config = Some cfg"
      and "fst (read_recipients env fs (py_or csv_file (csv_recipients cfg))
                 (t @ [Logged (LogInfo ''Reading recipient data from CSV...'')])) = Inr recipients"
      and "attachments = Some ps" and "\<exists>p \<in> set ps. invalid_attachment fs h p"
  shows "\<exists>res t'. send_bulk_emails env fs h config csv_file template_file subject attachments t
                    = (Inr res, t')
           \<and> total_r res = length recipients \<and> sent res = 0 \<and> failed res = length recipients
           \<and> length (errors res) = length recipients \<and> \<not> success res
           \<and> smtp_calls t' = smtp_calls t \<and> smtp_sends t' = smtp_sends t"
proof -
  let ?t0 = "t @ [Logged (LogInfo ''Reading recipient data from CSV...'')]"
  let ?csv = "py_or csv_file (csv_recipients cfg)"
  obtain t1 where rd: "read_recipients env fs ?csv ?t0 = (Inr recipients, t1)"
    using assms(2) by (cases "read_recipients env fs ?csv ?t0") simp
  obtain evs1 where e1: "t1 = ?t0 @ evs1" "list_all is_logged evs1"
    using read_recipients_trace[of env fs ?csv ?t0] rd by auto
  have ne: "recipients \<noteq> []" using assms(2) by (rule read_recipients_nonempty)
  let ?res0 = "\<lparr>total_r = length recipients, sent = 0, failed = 0, errors = [], success = False\<rparr>"
  let ?t2 = "t1 @ [Logged (LogInfo (''Starting bulk email send to ''
                                  @ show_nat (total_r ?res0) @ '' recipients''))]"
  obtain res' evs where l:
    "bulk_loop env fs h cfg (py_or template_file (email_template cfg))
        (py_or subject (default_subject cfg)) (Some ps) 1 recipients (?res0, ?t2) = (res', ?t2 @ evs)"
    "list_all is_internal evs" "total_r res' = total_r ?res0" "sent res' = sent ?res0"
    "failed res' = failed ?res0 + length recipients"
    "length (errors res') = length (errors ?res0) + length recipients"
    using bulk_loop_invalid[OF assms(4)] by blast
  let ?tf = "(?t2 @ evs) @ [Logged (LogInfo (''Bulk email completed - Sent: ''
                                 @ show_nat (sent res') @ '', Failed: '' @ show_nat (failed res')))]"
  have run: "send_bulk_emails env fs h config csv_file template_file subject attachments t
           = (Inr (res'\<lparr>success := (failed res' = 0)\<rparr>), ?tf)"
    using assms(1,3) rd l(1) by (simp add: send_bulk_emails_def Let_def)
  define all_evs where "all_evs = [Logged (LogInfo ''Reading recipient data from CSV...'')] @ evs1
              @ [Logged (LogInfo (''Starting bulk email send to ''
                                  @ show_nat (total_r ?res0) @ '' recipients''))] @ evs
              @ [Logged (LogInfo (''Bulk email completed - Sent: ''
                                 @ show_nat (sent res') @ '', Failed: '' @ show_nat (failed res')))]"
  have tf: "?tf = t @ all_evs"
    using e1 by (simp add: all_evs_def)
  have int: "list_all is_internal all_evs"
    using e1 l(2) logs_internal[of evs1] by (simp add: all_evs_def)
  have calls: "smtp_calls ?tf = smtp_calls t" "smtp_sends ?tf = smtp_sends t"
    unfolding tf using int by (rule smtp_calls_internal, rule smtp_sends_internal)
  show ?thesis
    using run l ne calls by (intro exI[of _ "res'\<lparr>success := (failed res' = 0)\<rparr>"] exI[of _ ?tf]) simp
qed

lemma one_row_read:
  "fst (read_recipients stub_env (campaign_fs one_row) ''r.csv'' t)
     = Inr [[(Some ''name'', ''Jane''), (Some ''email'', ''jane@example.com'')]]"
  by (simp add: read_recipients_def campaign_fs_def one_row_def csv_file_obj_def DictReader_row_def
        dict_of_pairs_def clean_row_def py_str_def strip_examples Let_def sniff_delimiter_def
        stub_env_def)

text \<open>
  Claim C1, as amended. If a shared attachment path given to \<^verbatim>\<open>send_bulk_emails\<close> is
  invalid (missing, not a regular file, or larger than the limit), the run does not
  abort: for any number of recipients it returns a result in which every recipient is
  counted as failed (total \<open>N\<close>, sent \<open>0\<close>, failed \<open>N\<close>, one error line each, success
  false), and the transport is not called: no connection is asked for and no message
  is handed to SMTP.
\<close>

theorem bulk_invalid_attachment:
  assumes "config = Some cfg"
      and "fst (read_recipients env fs (py_or csv_file (csv_recipients cfg))
                 (t @ [Logged (LogInfo ''Reading recipient data from CSV...'')])) = Inr recipients"
      and "attachments = Some ps" and "\<exists>p \<in> set ps. invalid_attachment fs h p"
  shows "\<exists>res t'. send_bulk_emails env fs h config csv_file template_file subject attachments t
                    = (Inr res, t')
           \<and> total_r res = length recipients \<and> sent res = 0 \<and> failed res = length recipients
           \<and> length (errors res) = length recipients \<and> \<not> success res
           \<and> smtp_calls t' = smtp_calls t \<and> smtp_sends t' = smtp_sends t"
  using send_bulk_emails_invalid[OF assms] .

text \<open>The theorem at one recipient and the attachment \<^verbatim>\<open>missing.pdf\<close>, which does not
  exist.\<close>

theorem bulk_invalid_attachment_witness:
  "invalid_attachment (campaign_fs one_row) handler_25 ''missing.pdf''
   \<and> (\<exists>res t'. send_bulk_emails stub_env (campaign_fs one_row) handler_25 (Some demo_config)
                  None None None (Some [''missing.pdf'']) [] = (Inr res, t')
           \<and> total_r res = 1 \<and> sent res = 0 \<and> failed res = 1
           \<and> length (errors res) = 1 \<and> \<not> success res \<and> smtp_calls t' = 0 \<and> smtp_sends t' = 0)"
proof -
  have inv: "invalid_attachment (campaign_fs one_row) handler_25 ''missing.pdf''"
    by (simp add: invalid_attachment_def campaign_fs_def)
  have rd: "fst (read_recipients stub_env (campaign_fs one_row)
                   (py_or None (csv_recipients demo_config))
                   ([] @ [Logged (LogInfo ''Reading recipient data from CSV...'')]))
              = Inr [[(Some ''name'', ''Jane''), (Some ''email'', ''jane@example.com'')]]"
    using one_row_read by (simp add: py_or_def demo_config_def)
  have ex: "\<exists>p \<in> set [''missing.pdf'']. invalid_attachment (campaign_fs one_row) handler_25 p"
    using inv by simp
  show ?thesis
    using inv bulk_invalid_attachment[OF refl rd refl ex, of None None]
    by (simp add: smtp_counts_Nil)
qed

text \<open>The same run, evaluated: it returns a result, with the recipient recorded as a
  failure of the attachment step; it does not raise.\<close>

theorem bulk_invalid_attachment_run_returns:
  "fst (send_bulk_emails stub_env (campaign_fs one_row) handler_25 (Some demo_config) None None None
          (Some [''missing.pdf'']) [])
     = Inr \<lparr>total_r = 1, sent = 0, failed = 1,
            errors = [''Error sending to jane@example.com: Attachment error: Attachment file not found: missing.pdf''],
            success = False\<rparr>"
  by (simp add: send_bulk_emails_def read_recipients_def campaign_fs_def one_row_def csv_file_obj_def
        DictReader_row_def dict_of_pairs_def clean_row_def py_str_def strip_examples Let_def
        demo_config_def demo_smtp_def py_or_def bulk_step_def bulk_try_def render_template_def
        open_read_text_def text_file_obj_def stub_env_def render_subject_def send_email_def
        create_attachment_def dict_get_def py_replace_def placeholder_def str_key_def
        text_part_def show_nat.simps digit_char_def sniff_delimiter_def)

section \<open>Bulk run: counting and the exchanges with the server\<close>

lemma render_template_basic:
  assumes "jinja2 env = None" "open_read_text fs tp = Inr content"
  shows "render_template env fs tp d t =
           (Inr (basic_template_replace content d),
            t @ [Logged (LogDebug (''Template rendered for ''
                    @ dict_get d ''email'' ''unknown recipient''))])"
proof -
  have "fs tp \<noteq> None" using assms(2) by (auto simp: open_read_text_def split: option.splits)
  then show ?thesis using assms by (simp add: render_template_def)
qed

lemma renders_ok_basic:
  assumes "jinja2 env = None" "open_read_text fs tp = Inr content"
  shows "renders_ok env fs tp subj r"
  using render_template_basic[OF assms, of r] assms(1)
  by (simp add: renders_ok_def render_subject_def)

lemma create_attachment_fst:
  "fst (create_attachment env fs h p t) = fst (create_attachment env fs h p t')"
  by (auto simp: create_attachment_def Let_def
           split: option.splits fs_node.splits sum.splits prod.splits)

lemma attach_all_ok:
  "list_all (\<lambda>p. \<not> isl (fst (create_attachment env fs h p []))) ps \<Longrightarrow>
   \<exists>r. fst (attach_all env fs h ps parts n t) = Inr r"
proof (induction ps arbitrary: parts n t)
  case Nil
  then show ?case by simp
next
  case (Cons p ps)
  obtain r t1 where c: "create_attachment env fs h p t = (r, t1)"
    by (cases "create_attachment env fs h p t")
  have "\<not> isl (fst (create_attachment env fs h p t))"
    using Cons.prems create_attachment_fst[of env fs h p t "[]"] by simp
  then obtain a where a: "r = Inr a" using c by (cases r) auto
  show ?case using Cons.IH Cons.prems c a by simp
qed

text \<open>\<^verbatim>\<open>send_email\<close> to one address when the attachments build: the transport is called
  once, the message is handed over when the connection is made, and the call succeeds
  or fails as the exchange does.\<close>

lemma send_email_reaches_smtp:
  assumes "attachments_ok env fs h atts"
  shows "\<exists>msg evs.
           send_email env fs h sc sender (RStr email) subj body html atts sn t
             = ((case transport_error env sc (smtp_calls t) msg of
                   None \<Rightarrow> Inr True
                 | Some m \<Rightarrow> Inl (EmailSendError (''SMTP error: '' @ m))),
                t @ evs)
           \<and> smtp_calls evs = 1
           \<and> smtp_sends evs = (if smtp_connect env sc (smtp_calls t) = None then 1 else 0)"
proof -
  let ?head = "[Logged (LogInfo (''Sending email to: '' @ py_join '', '' [email])),
                  Logged (LogSmtpConnection (server sc) (port sc) (username sc))]"
  let ?t1 = "t @ ?head"
  let ?body_parts = "case html of
               Some html' \<Rightarrow>
                 if html' \<noteq> [] then [text_part body ''plain'', text_part html' ''html'']
                 else [text_part body ''plain'']
             | None \<Rightarrow> [text_part body ''plain'']"
  let ?ps = "case atts of Some l \<Rightarrow> l | None \<Rightarrow> []"
  let ?att = "attach_all env fs h ?ps ?body_parts 0 ?t1"
  obtain r t2 where a: "?att = (r, t2)" by (cases ?att)
  obtain evs2 where e2: "t2 = ?t1 @ evs2" "list_all is_logged evs2"
    using attach_all_trace[of env fs h ?ps ?body_parts 0 ?t1] a by auto
  obtain parts cnt where r: "r = Inr (parts, cnt)"
    using attach_all_ok[of env fs h ?ps ?body_parts 0 ?t1] assms a
    by (auto simp: attachments_ok_def)
  have att: "?att = (Inr (parts, cnt), t2)" using a r by simp
  let ?msg = "\<lparr>msg_from = (case sn of
                             Some n \<Rightarrow> if n \<noteq> [] then n @ '' <'' @ sender @ ''>'' else sender
                           | None \<Rightarrow> sender),
              msg_to = py_join '', '' [email], msg_subject = subj, msg_parts = parts\<rparr>"
  have "\<exists>tail. send_email env fs h sc sender (RStr email) subj body html atts sn t
           = ((case transport_error env sc (smtp_calls t2) ?msg of
                 None \<Rightarrow> Inr True
               | Some m \<Rightarrow> Inl (EmailSendError (''SMTP error: '' @ m))),
              t2 @ SmtpConnect # tail)
         \<and> (if smtp_connect env sc (smtp_calls t2) = None
            then \<exists>logs. tail = SmtpSend ?msg # logs \<and> list_all is_logged logs
            else list_all is_logged tail)"
    by (rule send_email_core[where recipients = "[email]", OF _ _ att refl]) simp_all
  then obtain tail where s:
    "send_email env fs h sc sender (RStr email) subj body html atts sn t
           = ((case transport_error env sc (smtp_calls t2) ?msg of
                 None \<Rightarrow> Inr True
               | Some m \<Rightarrow> Inl (EmailSendError (''SMTP error: '' @ m))),
              t2 @ SmtpConnect # tail)"
    "if smtp_connect env sc (smtp_calls t2) = None
            then \<exists>logs. tail = SmtpSend ?msg # logs \<and> list_all is_logged logs
            else list_all is_logged tail"
    by blast
  have hl: "list_all is_logged (?head @ evs2)" using e2(2) by simp
  have c2: "smtp_calls t2 = smtp_calls t"
    using e2(1) smtp_calls_logs[OF hl, of t] by simp
  have z: "smtp_calls (?head @ evs2) = 0" "smtp_sends (?head @ evs2) = 0"
    using smtp_internal_zero[OF logs_internal[OF hl]] by simp_all
  let ?evs = "(?head @ evs2) @ SmtpConnect # tail"
  have run: "send_email env fs h sc sender (RStr email) subj body html atts sn t
             = ((case transport_error env sc (smtp_calls t) ?msg of
                   None \<Rightarrow> Inr True
                 | Some m \<Rightarrow> Inl (EmailSendError (''SMTP error: '' @ m))),
                t @ ?evs)"
    using s(1) e2(1) c2 by simp
  have counts: "smtp_calls ?evs = 1
      \<and> smtp_sends ?evs = (if smtp_connect env sc (smtp_calls t) = None then 1 else 0)"
  proof (cases "smtp_connect env sc (smtp_calls t) = None")
    case True
    then obtain logs where l: "tail = SmtpSend ?msg # logs" "list_all is_logged logs"
      using s(2) c2 by auto
    have "smtp_calls logs = 0" "smtp_sends logs = 0"
      using smtp_internal_zero[OF logs_internal[OF l(2)]] by simp_all
    then have "smtp_calls (SmtpConnect # tail) = 1" "smtp_sends (SmtpConnect # tail) = 1"
      using l(1) by (simp_all add: smtp_calls_def smtp_sends_def)
    then show ?thesis
      using True z by (simp only: smtp_calls_append smtp_sends_append) simp
  next
    case False
    then have "list_all is_logged tail" using s(2) c2 by simp
    then have "smtp_calls tail = 0" "smtp_sends tail = 0"
      using smtp_internal_zero[OF logs_internal] by simp_all
    then have "smtp_calls (SmtpConnect # tail) = 1" "smtp_sends (SmtpConnect # tail) = 0"
      by (simp_all add: smtp_calls_def smtp_sends_def)
    then show ?thesis
      using False z by (simp only: smtp_calls_append smtp_sends_append) simp
  qed
  show ?thesis
    using run counts by (intro exI[of _ ?msg] exI[of _ ?evs]) simp
qed

text \<open>One iteration for a recipient with an address, when the template and the subject
  render and the attachments build, and the outcome of the exchange depends on the
  number of the connection only.\<close>

lemma bulk_step_reaches_smtp:
  assumes "renders_ok env fs tp subj r"
      and "attachments_ok env fs h atts"
      and "map_of r (Some ''email'') = Some email"
      and "\<forall>n msg. transport_error env (smtp cfg) n msg = out n"
  shows "\<exists>t'. bulk_step env fs h cfg tp subj atts i r (res, t)
           = ((case out (smtp_calls t) of
                 None \<Rightarrow> res\<lparr>sent := sent res + 1\<rparr>
               | Some m \<Rightarrow> res\<lparr>failed := failed res + 1,
                             errors := errors res @ [''Error sending to '' @ email
                                         @ '': SMTP error: '' @ m]\<rparr>), t')
           \<and> smtp_calls t' = smtp_calls t + 1
           \<and> smtp_sends t' = smtp_sends t
                 + (if smtp_connect env (smtp cfg) (smtp_calls t) = None then 1 else 0)"
proof -
  obtain rr t0 where rt0: "render_template env fs tp r t = (rr, t0)"
    by (cases "render_template env fs tp r t")
  obtain logs0 where l0: "t0 = t @ logs0" "list_all is_internal logs0"
    using render_template_trace[of env fs tp r t] rt0 by auto
  have "\<not> isl (fst (render_template env fs tp r t))"
    using assms(1) by (simp add: renders_ok_def)
  then obtain pbody where pb: "rr = Inr pbody" using rt0 by (cases rr) auto
  have rt: "render_template env fs tp r t = (Inr pbody, t0)" using rt0 pb by simp
  obtain sr t1 where rs0: "render_subject env subj r t0 = (sr, t1)"
    by (cases "render_subject env subj r t0")
  obtain logs1 where l1: "t1 = t0 @ logs1" "list_all is_internal logs1"
    using render_subject_trace[of env subj r t0] rs0 by auto
  have "\<not> isl (fst (render_subject env subj r t0))"
    using assms(1) by (simp add: renders_ok_def)
  then obtain psubject where ps: "sr = Inr psubject" using rs0 by (cases sr) auto
  have rs: "render_subject env subj r t0 = (Inr psubject, t1)" using rs0 ps by simp
  have c1: "smtp_calls t1 = smtp_calls t" "smtp_sends t1 = smtp_sends t"
    using l0 l1 smtp_calls_internal smtp_sends_internal by simp_all
  obtain msg evs where se:
    "send_email env fs h (smtp cfg) (username (smtp cfg)) (RStr email) psubject pbody None atts
        (sender_name cfg) t1
      = ((case transport_error env (smtp cfg) (smtp_calls t1) msg of
                   None \<Rightarrow> Inr True
                 | Some m \<Rightarrow> Inl (EmailSendError (''SMTP error: '' @ m))),
                t1 @ evs)"
    "smtp_calls evs = 1"
    "smtp_sends evs = (if smtp_connect env (smtp cfg) (smtp_calls t1) = None then 1 else 0)"
    using send_email_reaches_smtp[OF assms(2), of "smtp cfg" "username (smtp cfg)" email psubject
            pbody None "sender_name cfg" t1]
    by blast
  have ex: "transport_error env (smtp cfg) (smtp_calls t1) msg = out (smtp_calls t)"
    using assms(4) c1 by simp
  let ?t2 = "t1 @ evs"
  have c2: "smtp_calls ?t2 = smtp_calls t + 1"
     "smtp_sends ?t2 = smtp_sends t
         + (if smtp_connect env (smtp cfg) (smtp_calls t) = None then 1 else 0)"
    using se(2,3) c1 by (simp_all add: smtp_calls_append smtp_sends_append)
  have dg: "dict_get r ''email'' ''unknown'' = email"
    using assms(3) by (simp add: dict_get_def)
  show ?thesis
  proof (cases "out (smtp_calls t)")
    case None
    let ?res1 = "res\<lparr>sent := sent res + 1\<rparr>"
    let ?plog = "if i mod 10 = 0 then
                 [Logged (LogInfo (''Progress: '' @ show_nat i @ ''/''
                          @ show_nat (total_r ?res1) @ '' emails processed''))]
               else []"
    have "bulk_try env fs h cfg tp subj atts i r (res, t) = (None, ?res1, ?t2 @ ?plog)"
      using rt rs assms(3) se(1) ex None by (simp add: bulk_try_def Let_def)
    then have "bulk_step env fs h cfg tp subj atts i r (res, t) = (?res1, ?t2 @ ?plog)"
      by (simp add: bulk_step_def)
    moreover have "smtp_calls (?t2 @ ?plog) = smtp_calls ?t2" "smtp_sends (?t2 @ ?plog) = smtp_sends ?t2"
      by (simp_all add: smtp_calls_append smtp_sends_append smtp_log_zero smtp_counts_Nil
            del: append_assoc)
    ultimately show ?thesis using None c2 by (intro exI[of _ "?t2 @ ?plog"]) simp
  next
    case (Some m)
    let ?em = "''Error sending to '' @ email @ '': SMTP error: '' @ m"
    have "bulk_try env fs h cfg tp subj atts i r (res, t)
            = (Some (EmailSendError (''SMTP error: '' @ m)), res, ?t2)"
      using rt rs assms(3) se(1) ex Some by (simp add: bulk_try_def Let_def)
    then have "bulk_step env fs h cfg tp subj atts i r (res, t)
            = (res\<lparr>failed := failed res + 1, errors := errors res @ [?em]\<rparr>,
               ?t2 @ [Logged (LogError ?em)])"
      using dg by (simp add: bulk_step_def Let_def)
    moreover have "smtp_calls (?t2 @ [Logged (LogError ?em)]) = smtp_calls ?t2"
        "smtp_sends (?t2 @ [Logged (LogError ?em)]) = smtp_sends ?t2"
      by (simp_all add: smtp_calls_append smtp_sends_append smtp_log_zero del: append_assoc)
    ultimately show ?thesis using Some c2 by (intro exI[of _ "?t2 @ [Logged (LogError ?em)]"]) simp
  qed
qed

lemma bulk_loop_append:
  "bulk_loop env fs h cfg tp subj atts i (xs @ ys) st
     = bulk_loop env fs h cfg tp subj atts (i + length xs) ys
         (bulk_loop env fs h cfg tp subj atts i xs st)"
  by (induction xs arbitrary: i st) simp_all

lemma bulk_loop_all_sent:
  assumes "attachments_ok env fs h atts"
      and "\<forall>n msg. transport_error env (smtp cfg) n msg = out n"
  shows "\<forall>r \<in> set rs. map_of r (Some ''email'') \<noteq> None \<Longrightarrow>
         \<forall>r \<in> set rs. renders_ok env fs tp subj r \<Longrightarrow>
         \<forall>k < length rs. out (smtp_calls t + k) = None \<Longrightarrow>
         \<exists>t'. bulk_loop env fs h cfg tp subj atts i rs (res, t)
                 = (res\<lparr>sent := sent res + length rs\<rparr>, t')
               \<and> smtp_calls t' = smtp_calls t + length rs
               \<and> smtp_sends t' = smtp_sends t + length rs"
proof (induction rs arbitrary: i res t)
  case Nil
  then show ?case by simp
next
  case (Cons r rs)
  obtain email where em: "map_of r (Some ''email'') = Some email"
    using Cons.prems(1) by auto
  have ro: "renders_ok env fs tp subj r" using Cons.prems(2) by simp
  have o0: "out (smtp_calls t) = None" using Cons.prems(3) by force
  have "transport_error env (smtp cfg) (smtp_calls t) msg = None" for msg
    using assms(2) o0 by simp
  then have conn: "smtp_connect env (smtp cfg) (smtp_calls t) = None"
    using transport_error_connect[of env "smtp cfg" "smtp_calls t"] by blast
  obtain t1 where st: "bulk_step env fs h cfg tp subj atts i r (res, t)
           = (res\<lparr>sent := sent res + 1\<rparr>, t1)" "smtp_calls t1 = smtp_calls t + 1"
      "smtp_sends t1 = smtp_sends t + 1"
    using bulk_step_reaches_smtp[OF ro assms(1) em assms(2), of i res t] o0 conn by auto
  have "\<forall>k < length rs. out (smtp_calls t1 + k) = None"
  proof (intro allI impI)
    fix k assume "k < length rs"
    then have "out (smtp_calls t + Suc k) = None" using Cons.prems(3) by force
    then show "out (smtp_calls t1 + k) = None" using st(2) by simp
  qed
  then obtain t' where l:
      "bulk_loop env fs h cfg tp subj atts (i + 1) rs (res\<lparr>sent := sent res + 1\<rparr>, t1)
         = (res\<lparr>sent := sent res + 1\<rparr>\<lparr>sent := sent (res\<lparr>sent := sent res + 1\<rparr>) + length rs\<rparr>, t')"
      "smtp_calls t' = smtp_calls t1 + length rs"
      "smtp_sends t' = smtp_sends t1 + length rs"
    using Cons.IH[of t1 "i + 1" "res\<lparr>sent := sent res + 1\<rparr>"] Cons.prems(1,2) by auto
  show ?case using st l by (intro exI[of _ t']) simp
qed

text \<open>One iteration of the loop, whatever happens in it: the recipient is counted once,
  as sent or as failed, and the transport is called at most once.\<close>

lemma bulk_step_counts:
  "\<exists>res' evs es. bulk_step env fs h cfg tp subj atts i r (res, t) = (res', t @ evs)
     \<and> total_r res' = total_r res
     \<and> sent res' + failed res' = sent res + failed res + 1
     \<and> failed res \<le> failed res'
     \<and> errors res' = errors res @ es
     \<and> smtp_calls evs \<le> 1 \<and> smtp_sends evs \<le> 1"
proof -
  obtain rr t0 where rt: "render_template env fs tp r t = (rr, t0)"
    by (cases "render_template env fs tp r t")
  obtain evs0 where e0: "t0 = t @ evs0" "list_all is_internal evs0"
    using render_template_trace[of env fs tp r t] rt by auto
  have c0: "smtp_calls evs0 = 0" "smtp_sends evs0 = 0"
    using smtp_internal_zero[OF e0(2)] by simp_all
  let ?em = "\<lambda>e. ''Error sending to '' @ dict_get r ''email'' ''unknown'' @ '': '' @ str_error e"
  have fail: ?thesis
    if "bulk_try env fs h cfg tp subj atts i r (res, t) = (Some e, res, t @ evs)"
       "smtp_calls evs \<le> 1" "smtp_sends evs \<le> 1" for e evs
  proof -
    have "bulk_step env fs h cfg tp subj atts i r (res, t)
            = (res\<lparr>failed := failed res + 1, errors := errors res @ [?em e]\<rparr>,
               t @ (evs @ [Logged (LogError (?em e))]))"
      using that(1) by (simp add: bulk_step_def Let_def)
    moreover have "smtp_calls (evs @ [Logged (LogError (?em e))]) \<le> 1"
        "smtp_sends (evs @ [Logged (LogError (?em e))]) \<le> 1"
      using that(2,3) by (simp_all add: smtp_calls_append smtp_sends_append smtp_log_zero)
    ultimately show ?thesis
      by (intro exI[of _ "res\<lparr>failed := failed res + 1, errors := errors res @ [?em e]\<rparr>"]
                exI[of _ "evs @ [Logged (LogError (?em e))]"] exI[of _ "[?em e]"]) simp
  qed
  show ?thesis
  proof (cases rr)
    case (Inl e)
    have "bulk_try env fs h cfg tp subj atts i r (res, t) = (Some e, res, t @ evs0)"
      using rt e0 Inl by (simp add: bulk_try_def)
    then show ?thesis using fail c0 by simp
  next
    case (Inr pbody)
    obtain sr t1 where rs: "render_subject env subj r t0 = (sr, t1)"
      by (cases "render_subject env subj r t0")
    obtain evs1 where e1: "t1 = t0 @ evs1" "list_all is_internal evs1"
      using render_subject_trace[of env subj r t0] rs by auto
    have c1: "smtp_calls (evs0 @ evs1) = 0" "smtp_sends (evs0 @ evs1) = 0"
      using c0 smtp_internal_zero[OF e1(2)] by (simp_all add: smtp_calls_append smtp_sends_append)
    have t1: "t1 = t @ (evs0 @ evs1)" using e0 e1 by simp
    show ?thesis
    proof (cases sr)
      case (Inl e)
      have "bulk_try env fs h cfg tp subj atts i r (res, t) = (Some e, res, t @ (evs0 @ evs1))"
        using rt rs t1 Inr Inl by (simp add: bulk_try_def)
      then show ?thesis using fail[of e "evs0 @ evs1"] c1 by simp
    next
      case psub: (Inr psubject)
      show ?thesis
      proof (cases "map_of r (Some ''email'')")
        case None
        have "bulk_try env fs h cfg tp subj atts i r (res, t)
                = (Some (KeyError ''email''), res, t @ (evs0 @ evs1))"
          using rt rs t1 Inr psub None by (simp add: bulk_try_def)
        then show ?thesis using fail[of "KeyError ''email''" "evs0 @ evs1"] c1 by simp
      next
        case (Some email)
        let ?se = "send_email env fs h (smtp cfg) (username (smtp cfg)) (RStr email) psubject pbody
                     None atts (sender_name cfg) t1"
        obtain r2 t2 where se: "?se = (r2, t2)" by (cases ?se)
        obtain evs2 where e2: "t2 = t1 @ evs2" "smtp_calls evs2 \<le> 1" "smtp_sends evs2 \<le> 1"
          using send_email_calls[of env fs h "smtp cfg" "username (smtp cfg)" "RStr email" psubject
                  pbody None atts "sender_name cfg" t1] se by auto
        have c2: "smtp_calls ((evs0 @ evs1) @ evs2) \<le> 1" "smtp_sends ((evs0 @ evs1) @ evs2) \<le> 1"
          using c1 e2(2,3) by (simp_all only: smtp_calls_append smtp_sends_append)
        have t2: "t2 = t @ ((evs0 @ evs1) @ evs2)" using t1 e2(1) by simp
        show ?thesis
        proof (cases r2)
          case (Inl e)
          have "bulk_try env fs h cfg tp subj atts i r (res, t)
                  = (Some e, res, t @ ((evs0 @ evs1) @ evs2))"
            using rt rs Inr psub Some se t2 Inl by (simp add: bulk_try_def)
          then show ?thesis using fail[of e "(evs0 @ evs1) @ evs2"] c2 by blast
        next
          case ok: (Inr ok)
          let ?res1 = "if ok then res\<lparr>sent := sent res + 1\<rparr>
                       else res\<lparr>failed := failed res + 1,
                                errors := errors res @ [''Failed to send to '' @ email]\<rparr>"
          let ?plog = "if i mod 10 = 0 then
                         [Logged (LogInfo (''Progress: '' @ show_nat i @ ''/''
                            @ show_nat (total_r ?res1) @ '' emails processed''))]
                       else []"
          have "bulk_try env fs h cfg tp subj atts i r (res, t)
                  = (None, ?res1, t @ (((evs0 @ evs1) @ evs2) @ ?plog))"
            using rt rs Inr psub Some se t2 ok by (simp add: bulk_try_def Let_def)
          then have st: "bulk_step env fs h cfg tp subj atts i r (res, t)
                  = (?res1, t @ (((evs0 @ evs1) @ evs2) @ ?plog))"
            by (simp add: bulk_step_def)
          have "smtp_calls ?plog = 0" "smtp_sends ?plog = 0"
            by (simp_all add: smtp_log_zero smtp_counts_Nil)
          then have "smtp_calls (((evs0 @ evs1) @ evs2) @ ?plog) \<le> 1"
              "smtp_sends (((evs0 @ evs1) @ evs2) @ ?plog) \<le> 1"
            using c2 by (simp_all only: smtp_calls_append[of "(evs0 @ evs1) @ evs2"]
                           smtp_sends_append[of "(evs0 @ evs1) @ evs2"] add_0_right)
          then show ?thesis
            using st
            by (intro exI[of _ ?res1] exI[of _ "((evs0 @ evs1) @ evs2) @ ?plog"]
                  exI[of _ "if ok then [] else [''Failed to send to '' @ email]"]) simp
        qed
      qed
    qed
  qed
qed

text \<open>One iteration for a record without the key \<^verbatim>\<open>email\<close>: the subscript raises
  \<^verbatim>\<open>KeyError\<close> (or rendering has raised before it), the record is counted as failed
  under the name \<^verbatim>\<open>unknown\<close>, and the transport is not called.\<close>

lemma bulk_step_no_email:
  assumes "lacks_email r"
  shows "\<exists>m evs. bulk_step env fs h cfg tp subj atts i r (res, t)
             = (res\<lparr>failed := failed res + 1,
                    errors := errors res @ [''Error sending to unknown: '' @ m]\<rparr>, t @ evs)
           \<and> list_all is_internal evs"
proof -
  have ne: "map_of r (Some ''email'') = None" using assms by (simp add: lacks_email_def)
  obtain rr t0 where rt: "render_template env fs tp r t = (rr, t0)"
    by (cases "render_template env fs tp r t")
  obtain evs0 where e0: "t0 = t @ evs0" "list_all is_internal evs0"
    using render_template_trace[of env fs tp r t] rt by auto
  obtain sr t1 where rs: "render_subject env subj r t0 = (sr, t1)"
    by (cases "render_subject env subj r t0")
  obtain evs1 where e1: "t1 = t0 @ evs1" "list_all is_internal evs1"
    using render_subject_trace[of env subj r t0] rs by auto
  have dg: "dict_get r ''email'' ''unknown'' = ''unknown''"
    using ne by (simp add: dict_get_def)
  have "\<exists>e evs. bulk_try env fs h cfg tp subj atts i r (res, t) = (Some e, res, t @ evs)
           \<and> list_all is_internal evs"
  proof (cases rr)
    case (Inl e)
    then show ?thesis using rt e0 by (simp add: bulk_try_def)
  next
    case (Inr pbody)
    show ?thesis
    proof (cases sr)
      case (Inl e)
      then show ?thesis using rt rs e0 e1 Inr by (simp add: bulk_try_def)
    next
      case psub: (Inr psubject)
      then show ?thesis using rt rs e0 e1 Inr ne by (simp add: bulk_try_def)
    qed
  qed
  then obtain e evs where bt:
    "bulk_try env fs h cfg tp subj atts i r (res, t) = (Some e, res, t @ evs)"
    "list_all is_internal evs"
    by blast
  let ?m = "''Error sending to unknown: '' @ str_error e"
  show ?thesis
    using bt dg
    by (intro exI[of _ "str_error e"] exI[of _ "evs @ [Logged (LogError ?m)]"])
       (simp add: bulk_step_def Let_def)
qed

text \<open>The loop, whatever happens in it: every record is counted once; every record
  without the key \<^verbatim>\<open>email\<close> is counted as failed and has an error line under the name
  \<^verbatim>\<open>unknown\<close>; and the transport is called for the other records at most.\<close>

lemma bulk_loop_counts:
  "\<exists>res' evs es. bulk_loop env fs h cfg tp subj atts i rs (res, t) = (res', t @ evs)
     \<and> total_r res' = total_r res
     \<and> sent res' + failed res' = sent res + failed res + length rs
     \<and> failed res + length (filter lacks_email rs) \<le> failed res'
     \<and> errors res' = errors res @ es
     \<and> length (filter lacks_email rs) \<le> length (filter unknown_line es)
     \<and> smtp_calls evs \<le> length (filter (\<lambda>r. \<not> lacks_email r) rs)
     \<and> smtp_sends evs \<le> length (filter (\<lambda>r. \<not> lacks_email r) rs)"
proof (induction rs arbitrary: i res t)
  case Nil
  then show ?case by (simp add: smtp_counts_Nil)
next
  case (Cons r rs)
  have "\<exists>res1 evs1 es1. bulk_step env fs h cfg tp subj atts i r (res, t) = (res1, t @ evs1)
     \<and> total_r res1 = total_r res
     \<and> sent res1 + failed res1 = sent res + failed res + 1
     \<and> failed res + length (filter lacks_email [r]) \<le> failed res1
     \<and> errors res1 = errors res @ es1
     \<and> length (filter lacks_email [r]) \<le> length (filter unknown_line es1)
     \<and> smtp_calls evs1 \<le> length (filter (\<lambda>r. \<not> lacks_email r) [r])
     \<and> smtp_sends evs1 \<le> length (filter (\<lambda>r. \<not> lacks_email r) [r])"
  proof (cases "lacks_email r")
    case True
    obtain m evs where b: "bulk_step env fs h cfg tp subj atts i r (res, t)
             = (res\<lparr>failed := failed res + 1,
                    errors := errors res @ [''Error sending to unknown: '' @ m]\<rparr>, t @ evs)"
        "list_all is_internal evs"
      using bulk_step_no_email[OF True] by blast
    have "smtp_calls evs = 0" "smtp_sends evs = 0"
      using smtp_internal_zero[OF b(2)] by simp_all
    then show ?thesis
      using b(1) True
      by (intro exI[of _ "res\<lparr>failed := failed res + 1,
                    errors := errors res @ [''Error sending to unknown: '' @ m]\<rparr>"]
            exI[of _ evs] exI[of _ "[''Error sending to unknown: '' @ m]"])
         (simp add: unknown_line_def)
  next
    case False
    obtain res1 evs1 es1 where st:
      "bulk_step env fs h cfg tp subj atts i r (res, t) = (res1, t @ evs1)"
      "total_r res1 = total_r res" "sent res1 + failed res1 = sent res + failed res + 1"
      "failed res \<le> failed res1" "errors res1 = errors res @ es1"
      "smtp_calls evs1 \<le> 1" "smtp_sends evs1 \<le> 1"
      using bulk_step_counts by blast
    then show ?thesis
      using False by (intro exI[of _ res1] exI[of _ evs1] exI[of _ es1]) simp
  qed
  then obtain res1 evs1 es1 where st:
     "bulk_step env fs h cfg tp subj atts i r (res, t) = (res1, t @ evs1)"
     "total_r res1 = total_r res"
     "sent res1 + failed res1 = sent res + failed res + 1"
     "failed res + length (filter lacks_email [r]) \<le> failed res1"
     "errors res1 = errors res @ es1"
     "length (filter lacks_email [r]) \<le> length (filter unknown_line es1)"
     "smtp_calls evs1 \<le> length (filter (\<lambda>r. \<not> lacks_email r) [r])"
     "smtp_sends evs1 \<le> length (filter (\<lambda>r. \<not> lacks_email r) [r])"
    by blast
  obtain res2 evs2 es2 where l:
    "bulk_loop env fs h cfg tp subj atts (i + 1) rs (res1, t @ evs1) = (res2, (t @ evs1) @ evs2)"
    "total_r res2 = total_r res1" "sent res2 + failed res2 = sent res1 + failed res1 + length rs"
    "failed res1 + length (filter lacks_email rs) \<le> failed res2"
    "errors res2 = errors res1 @ es2"
    "length (filter lacks_email rs) \<le> length (filter unknown_line es2)"
    "smtp_calls evs2 \<le> length (filter (\<lambda>r. \<not> lacks_email r) rs)"
    "smtp_sends evs2 \<le> length (filter (\<lambda>r. \<not> lacks_email r) rs)"
    using Cons.IH by blast
  have f: "length (filter P (r # rs)) = length (filter P [r]) + length (filter P rs)"
    for P :: "recipient \<Rightarrow> bool"
    by simp
  have a: "failed res + length (filter lacks_email (r # rs)) \<le> failed res2"
    using st(4) l(4) unfolding f[of lacks_email] by linarith
  have b: "length (filter lacks_email (r # rs)) \<le> length (filter unknown_line (es1 @ es2))"
    using st(6) l(6) unfolding f[of lacks_email] by simp
  have c: "smtp_calls (evs1 @ evs2) \<le> length (filter (\<lambda>r. \<not> lacks_email r) (r # rs))"
    using st(7) l(7) unfolding f[of "\<lambda>r. \<not> lacks_email r"] smtp_calls_append by linarith
  have d: "smtp_sends (evs1 @ evs2) \<le> length (filter (\<lambda>r. \<not> lacks_email r) (r # rs))"
    using st(8) l(8) unfolding f[of "\<lambda>r. \<not> lacks_email r"] smtp_sends_append by linarith
  have run: "bulk_loop env fs h cfg tp subj atts i (r # rs) (res, t) = (res2, t @ (evs1 @ evs2))"
    using st(1) l(1) by simp
  have tot: "total_r res2 = total_r res" using st(2) l(2) by simp
  have cnt: "sent res2 + failed res2 = sent res + failed res + length (r # rs)"
    using st(3) l(3) by simp
  have err: "errors res2 = errors res @ (es1 @ es2)" using st(5) l(5) by simp
  show ?case
    using run tot cnt a err b c d
    by (intro exI[of _ res2] exI[of _ "evs1 @ evs2"] exI[of _ "es1 @ es2"]) blast
qed

text \<open>The loop at a record without the key \<^verbatim>\<open>email\<close>: after the records before it,
  that record is counted as failed, without a call of the transport, and the loop
  goes on with the records after it.\<close>

lemma bulk_loop_no_email:
  assumes "lacks_email r"
  shows "\<exists>m logs res1 t1.
           bulk_loop env fs h cfg tp subj atts i pre (res0, t0) = (res1, t1)
         \<and> bulk_loop env fs h cfg tp subj atts i (pre @ r # post) (res0, t0)
             = bulk_loop env fs h cfg tp subj atts (i + length pre + 1) post
                 (res1\<lparr>failed := failed res1 + 1,
                        errors := errors res1 @ [''Error sending to unknown: '' @ m]\<rparr>,
                  t1 @ logs)
         \<and> list_all is_internal logs"
proof -
  obtain res1 t1 where pre: "bulk_loop env fs h cfg tp subj atts i pre (res0, t0) = (res1, t1)"
    by (cases "bulk_loop env fs h cfg tp subj atts i pre (res0, t0)")
  obtain m logs where st:
    "bulk_step env fs h cfg tp subj atts (i + length pre) r (res1, t1)
       = (res1\<lparr>failed := failed res1 + 1,
               errors := errors res1 @ [''Error sending to unknown: '' @ m]\<rparr>, t1 @ logs)"
    "list_all is_internal logs"
    using bulk_step_no_email[OF assms] by blast
  have "bulk_loop env fs h cfg tp subj atts i (pre @ r # post) (res0, t0)
             = bulk_loop env fs h cfg tp subj atts (i + length pre + 1) post
                 (res1\<lparr>failed := failed res1 + 1,
                        errors := errors res1 @ [''Error sending to unknown: '' @ m]\<rparr>,
                  t1 @ logs)"
    using pre st(1) by (simp add: bulk_loop_append)
  then show ?thesis using pre st(2) by blast
qed

lemma send_bulk_emails_run:
  assumes "config = Some cfg"
      and "fst (read_recipients env fs (py_or csv_file (csv_recipients cfg))
                 (t @ [Logged (LogInfo ''Reading recipient data from CSV...'')])) = Inr recipients"
  shows "\<exists>t2 logs. list_all is_logged logs \<and> t2 = t @ logs \<and>
      send_bulk_emails env fs h config csv_file template_file subject attachments t
        = (case bulk_loop env fs h cfg (py_or template_file (email_template cfg))
                  (py_or subject (default_subject cfg)) attachments 1 recipients
                  (\<lparr>total_r = length recipients, sent = 0, failed = 0, errors = [],
                    success = False\<rparr>, t2) of
             (res, t3) \<Rightarrow>
               (Inr (res\<lparr>success := (failed res = 0)\<rparr>),
                t3 @ [Logged (LogInfo (''Bulk email completed - Sent: ''
                        @ show_nat (sent res) @ '', Failed: '' @ show_nat (failed res)))]))"
proof -
  let ?t0 = "t @ [Logged (LogInfo ''Reading recipient data from CSV...'')]"
  let ?csv = "py_or csv_file (csv_recipients cfg)"
  obtain t1 where rd: "read_recipients env fs ?csv ?t0 = (Inr recipients, t1)"
    using assms(2) by (cases "read_recipients env fs ?csv ?t0") simp
  obtain evs1 where e1: "t1 = ?t0 @ evs1" "list_all is_logged evs1"
    using read_recipients_trace[of env fs ?csv ?t0] rd by auto
  let ?start = "Logged (LogInfo (''Starting bulk email send to ''
                  @ show_nat (length recipients) @ '' recipients''))"
  let ?logs = "[Logged (LogInfo ''Reading recipient data from CSV...'')] @ evs1 @ [?start]"
  have "send_bulk_emails env fs h config csv_file template_file subject attachments t
        = (case bulk_loop env fs h cfg (py_or template_file (email_template cfg))
                  (py_or subject (default_subject cfg)) attachments 1 recipients
                  (\<lparr>total_r = length recipients, sent = 0, failed = 0, errors = [],
                    success = False\<rparr>, t @ ?logs) of
             (res, t3) \<Rightarrow>
               (Inr (res\<lparr>success := (failed res = 0)\<rparr>),
                t3 @ [Logged (LogInfo (''Bulk email completed - Sent: ''
                        @ show_nat (sent res) @ '', Failed: '' @ show_nat (failed res)))]))"
    using assms(1) rd e1(1) by (simp add: send_bulk_emails_def Let_def)
  moreover have "list_all is_logged ?logs" using e1(2) by simp
  ultimately show ?thesis by blast
qed

lemma send_bulk_emails_one_failure:
  assumes "config = Some cfg"
      and "fst (read_recipients env fs (py_or csv_file (csv_recipients cfg))
                 (t @ [Logged (LogInfo ''Reading recipient data from CSV...'')])) = Inr recipients"
      and "\<forall>r \<in> set recipients. map_of r (Some ''email'') \<noteq> None"
      and "\<forall>r \<in> set recipients.
             renders_ok env fs (py_or template_file (email_template cfg))
               (py_or subject (default_subject cfg)) r"
      and "attachments_ok env fs h attachments"
      and "j < length recipients"
      and "\<forall>n msg. transport_error env (smtp cfg) n msg
                      = (if n = smtp_calls t + j then Some err else None)"
  shows "\<exists>res t'. send_bulk_emails env fs h config csv_file template_file subject attachments t
                    = (Inr res, t')
           \<and> total_r res = length recipients \<and> sent res = length recipients - 1
           \<and> failed res = 1 \<and> \<not> success res
           \<and> errors res = [''Error sending to '' @ dict_get (recipients ! j) ''email'' ''unknown''
                              @ '': SMTP error: '' @ err]
           \<and> smtp_calls t' = smtp_calls t + length recipients
           \<and> smtp_sends t' = smtp_sends t
                 + (if smtp_connect env (smtp cfg) (smtp_calls t + j) = None
                    then length recipients else length recipients - 1)"
proof -
  let ?tp = "py_or template_file (email_template cfg)"
  let ?subj = "py_or subject (default_subject cfg)"
  let ?out = "\<lambda>n. if n = smtp_calls t + j then Some err else None"
  let ?res0 = "\<lparr>total_r = length recipients, sent = 0, failed = 0, errors = [], success = False\<rparr>"
  let ?one = "if smtp_connect env (smtp cfg) (smtp_calls t + j) = None then 1 else (0::nat)"
  obtain t2 logs where run: "list_all is_logged logs" "t2 = t @ logs"
    "send_bulk_emails env fs h config csv_file template_file subject attachments t
        = (case bulk_loop env fs h cfg ?tp ?subj attachments 1 recipients (?res0, t2) of
             (res, t3) \<Rightarrow>
               (Inr (res\<lparr>success := (failed res = 0)\<rparr>),
                t3 @ [Logged (LogInfo (''Bulk email completed - Sent: ''
                        @ show_nat (sent res) @ '', Failed: '' @ show_nat (failed res)))]))"
    using send_bulk_emails_run[OF assms(1,2)] by blast
  have c2: "smtp_calls t2 = smtp_calls t" "smtp_sends t2 = smtp_sends t"
    using run(1,2) smtp_calls_logs smtp_sends_logs by simp_all
  let ?pre = "take j recipients" and ?r = "recipients ! j" and ?post = "drop (Suc j) recipients"
  have split: "recipients = ?pre @ ?r # ?post"
    using assms(6) by (simp add: id_take_nth_drop)
  have lens: "length ?pre = j" "length ?post = length recipients - Suc j"
    using assms(6) by simp_all
  have pre_email: "\<forall>r \<in> set ?pre. map_of r (Some ''email'') \<noteq> None"
    using assms(3) by (meson in_set_takeD)
  have post_email: "\<forall>r \<in> set ?post. map_of r (Some ''email'') \<noteq> None"
    using assms(3) by (meson in_set_dropD)
  have pre_ok: "\<forall>r \<in> set ?pre. renders_ok env fs ?tp ?subj r"
    using assms(4) by (meson in_set_takeD)
  have post_ok: "\<forall>r \<in> set ?post. renders_ok env fs ?tp ?subj r"
    using assms(4) by (meson in_set_dropD)
  have r_ok: "renders_ok env fs ?tp ?subj ?r"
    using assms(4,6) by simp
  obtain email where em: "map_of ?r (Some ''email'') = Some email"
    using assms(3,6) by (metis nth_mem not_None_eq)
  have dg: "dict_get ?r ''email'' ''unknown'' = email" using em by (simp add: dict_get_def)
  \<comment> \<open>the recipients before the failing one\<close>
  have "\<forall>k < length ?pre. ?out (smtp_calls t2 + k) = None" using c2 lens by simp
  then obtain ta where pa:
    "bulk_loop env fs h cfg ?tp ?subj attachments 1 ?pre (?res0, t2)
       = (?res0\<lparr>sent := sent ?res0 + length ?pre\<rparr>, ta)"
    "smtp_calls ta = smtp_calls t2 + length ?pre"
    "smtp_sends ta = smtp_sends t2 + length ?pre"
    using bulk_loop_all_sent[OF assms(5,7) pre_email pre_ok, of t2 1 ?res0] by blast
  let ?resA = "?res0\<lparr>sent := sent ?res0 + length ?pre\<rparr>"
  \<comment> \<open>the failing one\<close>
  have ca: "smtp_calls ta = smtp_calls t + j" "smtp_sends ta = smtp_sends t + j"
    using pa(2,3) c2 lens by simp_all
  let ?em = "''Error sending to '' @ email @ '': SMTP error: '' @ err"
  let ?resB = "?resA\<lparr>failed := failed ?resA + 1, errors := errors ?resA @ [?em]\<rparr>"
  obtain tb where pb:
    "bulk_step env fs h cfg ?tp ?subj attachments (1 + length ?pre) ?r (?resA, ta) = (?resB, tb)"
    "smtp_calls tb = smtp_calls ta + 1"
    "smtp_sends tb = smtp_sends ta + ?one"
    using bulk_step_reaches_smtp[OF r_ok assms(5) em assms(7), of "1 + length ?pre" ?resA ta] ca
    by auto
  \<comment> \<open>the recipients after it\<close>
  have "\<forall>k < length ?post. ?out (smtp_calls tb + k) = None" using pb(2) ca by simp
  then obtain tc where pc:
    "bulk_loop env fs h cfg ?tp ?subj attachments (1 + length ?pre + 1) ?post (?resB, tb)
       = (?resB\<lparr>sent := sent ?resB + length ?post\<rparr>, tc)"
    "smtp_calls tc = smtp_calls tb + length ?post"
    "smtp_sends tc = smtp_sends tb + length ?post"
    using bulk_loop_all_sent[OF assms(5,7) post_email post_ok, of tb "1 + length ?pre + 1" ?resB]
    by blast
  let ?resC = "?resB\<lparr>sent := sent ?resB + length ?post\<rparr>"
  have "bulk_loop env fs h cfg ?tp ?subj attachments 1 (?pre @ ?r # ?post) (?res0, t2) = (?resC, tc)"
    using pa(1) pb(1) pc(1) by (simp add: bulk_loop_append)
  then have loop: "bulk_loop env fs h cfg ?tp ?subj attachments 1 recipients (?res0, t2) = (?resC, tc)"
    using split by simp
  let ?fin = "Logged (LogInfo (''Bulk email completed - Sent: ''
                        @ show_nat (sent ?resC) @ '', Failed: '' @ show_nat (failed ?resC)))"
  let ?tf = "tc @ [?fin]"
  have fin: "send_bulk_emails env fs h config csv_file template_file subject attachments t
               = (Inr (?resC\<lparr>success := (failed ?resC = 0)\<rparr>), ?tf)"
    using run(3) loop by simp
  have calls: "smtp_calls ?tf = smtp_calls t + length recipients"
  proof -
    have "smtp_calls ?tf = smtp_calls tc"
      by (simp only: smtp_calls_append smtp_log_zero add_0_right)
    then show ?thesis using pc(2) pb(2) ca lens assms(6) by simp
  qed
  have sends: "smtp_sends ?tf = smtp_sends t
                 + (if smtp_connect env (smtp cfg) (smtp_calls t + j) = None
                    then length recipients else length recipients - 1)"
  proof -
    have "smtp_sends ?tf = smtp_sends tc"
      by (simp only: smtp_sends_append smtp_log_zero add_0_right)
    then show ?thesis using pc(3) pb(3) ca lens assms(6) by simp
  qed
  show ?thesis
    using fin calls sends dg lens assms(6)
    by (intro exI[of _ "?resC\<lparr>success := (failed ?resC = 0)\<rparr>"] exI[of _ ?tf]) simp
qed

lemma send_bulk_emails_email_counts:
  assumes "config = Some cfg"
      and "fst (read_recipients env fs (py_or csv_file (csv_recipients cfg))
                 (t @ [Logged (LogInfo ''Reading recipient data from CSV...'')])) = Inr recipients"
  shows "\<exists>res t'. send_bulk_emails env fs h config csv_file template_file subject attachments t
                    = (Inr res, t')
           \<and> total_r res = length recipients
           \<and> sent res + failed res = length recipients
           \<and> success res = (failed res = 0)
           \<and> length (filter lacks_email recipients) \<le> failed res
           \<and> length (filter lacks_email recipients) \<le> length (filter unknown_line (errors res))
           \<and> smtp_calls t' \<le> smtp_calls t + length (filter (\<lambda>r. \<not> lacks_email r) recipients)
           \<and> smtp_sends t' \<le> smtp_sends t + length (filter (\<lambda>r. \<not> lacks_email r) recipients)"
proof -
  let ?tp = "py_or template_file (email_template cfg)"
  let ?subj = "py_or subject (default_subject cfg)"
  let ?res0 = "\<lparr>total_r = length recipients, sent = 0, failed = 0, errors = [], success = False\<rparr>"
  obtain t2 logs where run: "list_all is_logged logs" "t2 = t @ logs"
    "send_bulk_emails env fs h config csv_file template_file subject attachments t
        = (case bulk_loop env fs h cfg ?tp ?subj attachments 1 recipients (?res0, t2) of
             (res, t3) \<Rightarrow>
               (Inr (res\<lparr>success := (failed res = 0)\<rparr>),
                t3 @ [Logged (LogInfo (''Bulk email completed - Sent: ''
                        @ show_nat (sent res) @ '', Failed: '' @ show_nat (failed res)))]))"
    using send_bulk_emails_run[OF assms(1,2)] by blast
  have c2: "smtp_calls t2 = smtp_calls t" "smtp_sends t2 = smtp_sends t"
    using run(1,2) smtp_calls_logs smtp_sends_logs by simp_all
  obtain res' evs es where l:
    "bulk_loop env fs h cfg ?tp ?subj attachments 1 recipients (?res0, t2) = (res', t2 @ evs)"
    "total_r res' = total_r ?res0"
    "sent res' + failed res' = sent ?res0 + failed ?res0 + length recipients"
    "failed ?res0 + length (filter lacks_email recipients) \<le> failed res'"
    "errors res' = errors ?res0 @ es"
    "length (filter lacks_email recipients) \<le> length (filter unknown_line es)"
    "smtp_calls evs \<le> length (filter (\<lambda>r. \<not> lacks_email r) recipients)"
    "smtp_sends evs \<le> length (filter (\<lambda>r. \<not> lacks_email r) recipients)"
    using bulk_loop_counts[of env fs h cfg ?tp ?subj attachments 1 recipients ?res0 t2] by blast
  let ?fin = "Logged (LogInfo (''Bulk email completed - Sent: ''
                        @ show_nat (sent res') @ '', Failed: '' @ show_nat (failed res')))"
  let ?tf = "(t2 @ evs) @ [?fin]"
  have fin: "send_bulk_emails env fs h config csv_file template_file subject attachments t
               = (Inr (res'\<lparr>success := (failed res' = 0)\<rparr>), ?tf)"
    using run(3) l(1) by simp
  have "smtp_calls ?tf = smtp_calls t + smtp_calls evs" "smtp_sends ?tf = smtp_sends t + smtp_sends evs"
    using c2 by (simp_all only: smtp_calls_append smtp_sends_append smtp_log_zero add_0_right)
  then have calls: "smtp_calls ?tf \<le> smtp_calls t + length (filter (\<lambda>r. \<not> lacks_email r) recipients)"
      "smtp_sends ?tf \<le> smtp_sends t + length (filter (\<lambda>r. \<not> lacks_email r) recipients)"
    using l(7,8) by simp_all
  show ?thesis
    using fin calls l(2,3,4,5,6)
    by (intro exI[of _ "res'\<lparr>success := (failed res' = 0)\<rparr>"] exI[of _ ?tf]) simp
qed

lemma five_rows_read:
  "fst (read_recipients env (campaign_fs five_rows) ''r.csv'' t) = Inr five_recipients"
  if "sniff env = (\<lambda>s. None)"
  using that
  by (simp add: read_recipients_def campaign_fs_def five_rows_def csv_file_obj_def
        DictReader_row_def dict_of_pairs_def clean_row_def py_str_def py_strip_def py_isspace_def
        five_recipients_def Let_def sniff_delimiter_def)

text \<open>
  Claim C2. In a run of \<^verbatim>\<open>send_bulk_emails\<close> over \<open>N\<close> recipients that all have an
  address, for which the template and the subject render and the attachments build, if
  the exchange with the mail server (making the connection, handing the message over,
  closing the connection) fails for exactly the recipient at position \<open>j\<close> and
  succeeds for all others, then the transport is called for every recipient (\<open>N\<close>
  connections are asked for, and a message is handed to each connection that is made:
  \<open>N\<close> messages, or \<open>N - 1\<close> when it is the connection that fails), and the result has
  total \<open>N\<close>, sent \<open>N - 1\<close>, failed \<open>1\<close>, success false, and its error list is the one
  line naming the address of the failing recipient. The claim is the case \<open>N = 5\<close>.
\<close>

theorem bulk_one_transport_failure:
  assumes "config = Some cfg"
      and "fst (read_recipients env fs (py_or csv_file (csv_recipients cfg))
                 (t @ [Logged (LogInfo ''Reading recipient data from CSV...'')])) = Inr recipients"
      and "\<forall>r \<in> set recipients. map_of r (Some ''email'') \<noteq> None"
      and "\<forall>r \<in> set recipients.
             renders_ok env fs (py_or template_file (email_template cfg))
               (py_or subject (default_subject cfg)) r"
      and "attachments_ok env fs h attachments"
      and "j < length recipients"
      and "\<forall>n msg. transport_error env (smtp cfg) n msg
                      = (if n = smtp_calls t + j then Some err else None)"
  shows "\<exists>res t'. send_bulk_emails env fs h config csv_file template_file subject attachments t
                    = (Inr res, t')
           \<and> total_r res = length recipients \<and> sent res = length recipients - 1
           \<and> failed res = 1 \<and> \<not> success res
           \<and> errors res = [''Error sending to '' @ dict_get (recipients ! j) ''email'' ''unknown''
                              @ '': SMTP error: '' @ err]
           \<and> smtp_calls t' = smtp_calls t + length recipients
           \<and> smtp_sends t' = smtp_sends t
                 + (if smtp_connect env (smtp cfg) (smtp_calls t + j) = None
                    then length recipients else length recipients - 1)"
  using send_bulk_emails_one_failure[OF assms] .

text \<open>The theorem at five recipients, for a server that rejects the third message and
  for a server that refuses the third connection.\<close>

theorem bulk_one_transport_failure_witness:
  "length five_recipients = 5
   \<and> (\<exists>res t'. send_bulk_emails fail_third_env (campaign_fs five_rows) handler_25
                  (Some demo_config) None None None None [] = (Inr res, t')
           \<and> total_r res = 5 \<and> sent res = 4 \<and> failed res = 1 \<and> \<not> success res
           \<and> errors res = [''Error sending to carol@example.com: SMTP error: 550 rejected'']
           \<and> smtp_calls t' = 5 \<and> smtp_sends t' = 5)
   \<and> (\<exists>res t'. send_bulk_emails refuse_third_env (campaign_fs five_rows) handler_25
                  (Some demo_config) None None None None [] = (Inr res, t')
           \<and> total_r res = 5 \<and> sent res = 4 \<and> failed res = 1 \<and> \<not> success res
           \<and> errors res = [''Error sending to carol@example.com: SMTP error: ''
                              @ ''Connection error: [Errno 111] Connection refused'']
           \<and> smtp_calls t' = 5 \<and> smtp_sends t' = 4)"
proof -
  have em: "\<forall>r \<in> set five_recipients. map_of r (Some ''email'') \<noteq> None"
    by (simp add: five_recipients_def)
  have tp: "open_read_text (campaign_fs five_rows) (py_or None (email_template demo_config))
              = Inr ''Dear {{name}}''"
    by (simp add: open_read_text_def campaign_fs_def py_or_def demo_config_def text_file_obj_def)
  have j: "2 < length five_recipients" by (simp add: five_recipients_def)
  have len: "length five_recipients = 5" by (simp add: five_recipients_def)
  have nth: "dict_get (five_recipients ! 2) ''email'' ''unknown'' = ''carol@example.com''"
    by (simp add: five_recipients_def dict_get_def)
  \<comment> \<open>the server that rejects the third message\<close>
  have rd1: "fst (read_recipients fail_third_env (campaign_fs five_rows)
                   (py_or None (csv_recipients demo_config))
                   ([] @ [Logged (LogInfo ''Reading recipient data from CSV...'')]))
              = Inr five_recipients"
    using five_rows_read[of fail_third_env] by (simp add: py_or_def demo_config_def
          fail_third_env_def stub_env_def)
  have jn1: "jinja2 fail_third_env = None"
    by (simp add: fail_third_env_def stub_env_def)
  have ro1: "\<forall>r \<in> set five_recipients.
              renders_ok fail_third_env (campaign_fs five_rows)
                (py_or None (email_template demo_config))
                (py_or None (default_subject demo_config)) r"
    using renders_ok_basic[OF jn1 tp] by simp
  have at1: "attachments_ok fail_third_env (campaign_fs five_rows) handler_25 None"
    by (simp add: attachments_ok_def)
  have sm1: "\<forall>n msg. transport_error fail_third_env (smtp demo_config) n msg
                      = (if n = smtp_calls [] + 2 then Some ''550 rejected'' else None)"
    by (simp add: transport_error_def fail_third_env_def stub_env_def smtp_calls_def)
  have cn1: "smtp_connect fail_third_env c n = None" for c n
    by (simp add: fail_third_env_def stub_env_def)
  have w1: "\<exists>res t'. send_bulk_emails fail_third_env (campaign_fs five_rows) handler_25
                  (Some demo_config) None None None None [] = (Inr res, t')
           \<and> total_r res = 5 \<and> sent res = 4 \<and> failed res = 1 \<and> \<not> success res
           \<and> errors res = [''Error sending to carol@example.com: SMTP error: 550 rejected'']
           \<and> smtp_calls t' = 5 \<and> smtp_sends t' = 5"
    using bulk_one_transport_failure[OF refl rd1 em ro1 at1 j sm1]
    by (simp add: len nth cn1 smtp_counts_Nil)
  \<comment> \<open>the server that refuses the third connection\<close>
  have rd2: "fst (read_recipients refuse_third_env (campaign_fs five_rows)
                   (py_or None (csv_recipients demo_config))
                   ([] @ [Logged (LogInfo ''Reading recipient data from CSV...'')]))
              = Inr five_recipients"
    using five_rows_read[of refuse_third_env] by (simp add: py_or_def demo_config_def
          refuse_third_env_def stub_env_def)
  have jn2: "jinja2 refuse_third_env = None"
    by (simp add: refuse_third_env_def stub_env_def)
  have ro2: "\<forall>r \<in> set five_recipients.
              renders_ok refuse_third_env (campaign_fs five_rows)
                (py_or None (email_template demo_config))
                (py_or None (default_subject demo_config)) r"
    using renders_ok_basic[OF jn2 tp] by simp
  have at2: "attachments_ok refuse_third_env (campaign_fs five_rows) handler_25 None"
    by (simp add: attachments_ok_def)
  have sm2: "\<forall>n msg. transport_error refuse_third_env (smtp demo_config) n msg
                      = (if n = smtp_calls [] + 2
                         then Some ''Connection error: [Errno 111] Connection refused''
                         else None)"
    by (simp add: transport_error_def refuse_third_env_def stub_env_def smtp_calls_def
          connection_error_def)
  have cn2: "smtp_connect refuse_third_env c n
               = (if n = 2 then Some (OSError ''[Errno 111] Connection refused'') else None)" for c n
    by (simp add: refuse_third_env_def stub_env_def)
  have w2: "\<exists>res t'. send_bulk_emails refuse_third_env (campaign_fs five_rows) handler_25
                  (Some demo_config) None None None None [] = (Inr res, t')
           \<and> total_r res = 5 \<and> sent res = 4 \<and> failed res = 1 \<and> \<not> success res
           \<and> errors res = [''Error sending to carol@example.com: SMTP error: ''
                              @ ''Connection error: [Errno 111] Connection refused'']
           \<and> smtp_calls t' = 5 \<and> smtp_sends t' = 4"
    using bulk_one_transport_failure[OF refl rd2 em ro2 at2 j sm2]
    by (simp add: len nth cn2 smtp_counts_Nil)
  show ?thesis using len w1 w2 by blast
qed

lemma no_email_rows_read:
  "fst (read_recipients stub_env (campaign_fs no_email_rows) ''r.csv'' t)
     = Inr no_email_recipients"
  by (simp add: read_recipients_def campaign_fs_def no_email_rows_def csv_file_obj_def
        DictReader_row_def dict_of_pairs_def clean_row_def py_str_def py_strip_def py_isspace_def
        Let_def sniff_delimiter_def stub_env_def no_email_recipients_def)

text \<open>
  Claim C9. In a run of \<^verbatim>\<open>send_bulk_emails\<close> every record that has no key \<^verbatim>\<open>email\<close> is
  recorded as a failure under the name \<^verbatim>\<open>unknown\<close>, and the transport is not called for
  it; the run is not aborted. In the result every recipient is accounted for (total
  \<open>N\<close>, sent + failed \<open>= N\<close>), the count of failures and the number of error lines that
  start \<^verbatim>\<open>Error sending to unknown: \<close> are at least the number of such records, and the
  transport is called at most once for each of the other records. In the loop, at a
  record without the key, whatever the records before it and the state they leave:
  the failure count goes up by one, one such error line is added, only log entries
  and calls of the template library are added to the trace, and the loop goes on with
  the records after it from that state.
\<close>

theorem bulk_missing_email_key:
  assumes "config = Some cfg"
      and "fst (read_recipients env fs (py_or csv_file (csv_recipients cfg))
                 (t @ [Logged (LogInfo ''Reading recipient data from CSV...'')])) = Inr recipients"
  shows "(\<exists>res t'. send_bulk_emails env fs h config csv_file template_file subject attachments t
                    = (Inr res, t')
           \<and> total_r res = length recipients
           \<and> sent res + failed res = length recipients
           \<and> success res = (failed res = 0)
           \<and> length (filter lacks_email recipients) \<le> failed res
           \<and> length (filter lacks_email recipients) \<le> length (filter unknown_line (errors res))
           \<and> smtp_calls t' \<le> smtp_calls t + length (filter (\<lambda>r. \<not> lacks_email r) recipients)
           \<and> smtp_sends t' \<le> smtp_sends t + length (filter (\<lambda>r. \<not> lacks_email r) recipients))
       \<and> (\<forall>tp subj i pre r post res0 t0. lacks_email r \<longrightarrow>
            (\<exists>m logs res1 t1.
                 bulk_loop env fs h cfg tp subj attachments i pre (res0, t0) = (res1, t1)
               \<and> bulk_loop env fs h cfg tp subj attachments i (pre @ r # post) (res0, t0)
                   = bulk_loop env fs h cfg tp subj attachments (i + length pre + 1) post
                       (res1\<lparr>failed := failed res1 + 1,
                              errors := errors res1 @ [''Error sending to unknown: '' @ m]\<rparr>,
                        t1 @ logs)
               \<and> list_all is_internal logs))"
proof (intro conjI allI impI)
  show "\<exists>res t'. send_bulk_emails env fs h config csv_file template_file subject attachments t
                    = (Inr res, t')
           \<and> total_r res = length recipients
           \<and> sent res + failed res = length recipients
           \<and> success res = (failed res = 0)
           \<and> length (filter lacks_email recipients) \<le> failed res
           \<and> length (filter lacks_email recipients) \<le> length (filter unknown_line (errors res))
           \<and> smtp_calls t' \<le> smtp_calls t + length (filter (\<lambda>r. \<not> lacks_email r) recipients)
           \<and> smtp_sends t' \<le> smtp_sends t + length (filter (\<lambda>r. \<not> lacks_email r) recipients)"
    using send_bulk_emails_email_counts[OF assms] .
next
  fix tp subj i pre r post res0 t0
  assume "lacks_email r"
  then show "\<exists>m logs res1 t1.
                 bulk_loop env fs h cfg tp subj attachments i pre (res0, t0) = (res1, t1)
               \<and> bulk_loop env fs h cfg tp subj attachments i (pre @ r # post) (res0, t0)
                   = bulk_loop env fs h cfg tp subj attachments (i + length pre + 1) post
                       (res1\<lparr>failed := failed res1 + 1,
                              errors := errors res1 @ [''Error sending to unknown: '' @ m]\<rparr>,
                        t1 @ logs)
               \<and> list_all is_internal logs"
    by (rule bulk_loop_no_email)
qed

text \<open>The theorem at a file whose columns are \<^verbatim>\<open>name\<close> and \<^verbatim>\<open>address\<close>, with three
  rows: all three are counted as failed under the name \<^verbatim>\<open>unknown\<close> and the transport is
  not called. And the loop at the second of three records, the first and the third
  having an address: it goes on with the third.\<close>

theorem bulk_missing_email_key_witness:
  "lacks_email (no_email_recipients ! 1)
   \<and> length (filter lacks_email no_email_recipients) = 3
   \<and> (\<exists>res t'. send_bulk_emails stub_env (campaign_fs no_email_rows) handler_25
                    (Some demo_config) None None None None [] = (Inr res, t')
           \<and> total_r res = 3 \<and> sent res = 0 \<and> failed res = 3 \<and> \<not> success res
           \<and> 3 \<le> length (filter unknown_line (errors res))
           \<and> smtp_calls t' = 0 \<and> smtp_sends t' = 0)
   \<and> (\<exists>m logs res1 t1.
          bulk_loop stub_env (campaign_fs no_email_rows) handler_25 demo_config
              ''template.txt'' ''Hello {{name}}'' None 1 [jane]
              (\<lparr>total_r = 3, sent = 0, failed = 0, errors = [], success = False\<rparr>, []) = (res1, t1)
        \<and> bulk_loop stub_env (campaign_fs no_email_rows) handler_25 demo_config
              ''template.txt'' ''Hello {{name}}'' None 1
              ([jane] @ (no_email_recipients ! 1) # [jane])
              (\<lparr>total_r = 3, sent = 0, failed = 0, errors = [], success = False\<rparr>, [])
            = bulk_loop stub_env (campaign_fs no_email_rows) handler_25 demo_config
                ''template.txt'' ''Hello {{name}}'' None (1 + length [jane] + 1) [jane]
                (res1\<lparr>failed := failed res1 + 1,
                       errors := errors res1 @ [''Error sending to unknown: '' @ m]\<rparr>,
                 t1 @ logs)
        \<and> list_all is_internal logs)"
proof -
  have rd: "fst (read_recipients stub_env (campaign_fs no_email_rows)
                   (py_or None (csv_recipients demo_config))
                   ([] @ [Logged (LogInfo ''Reading recipient data from CSV...'')]))
              = Inr no_email_recipients"
    using no_email_rows_read by (simp add: py_or_def demo_config_def)
  have le: "lacks_email (no_email_recipients ! 1)"
    by (simp add: no_email_recipients_def lacks_email_def)
  have c3: "length (filter lacks_email no_email_recipients) = 3"
    by (simp add: no_email_recipients_def lacks_email_def)
  have c0: "length (filter (\<lambda>r. \<not> lacks_email r) no_email_recipients) = 0"
    by (simp add: no_email_recipients_def lacks_email_def)
  have len: "length no_email_recipients = 3" by (simp add: no_email_recipients_def)
  note inst = bulk_missing_email_key[OF refl rd, of handler_25 None None None]
  from inst[THEN conjunct1] obtain res t' where run:
    "send_bulk_emails stub_env (campaign_fs no_email_rows) handler_25
        (Some demo_config) None None None None [] = (Inr res, t')"
    "total_r res = length no_email_recipients"
    "sent res + failed res = length no_email_recipients"
    "success res = (failed res = 0)"
    "length (filter lacks_email no_email_recipients) \<le> failed res"
    "length (filter lacks_email no_email_recipients) \<le> length (filter unknown_line (errors res))"
    "smtp_calls t' \<le> smtp_calls [] + length (filter (\<lambda>r. \<not> lacks_email r) no_email_recipients)"
    "smtp_sends t' \<le> smtp_sends [] + length (filter (\<lambda>r. \<not> lacks_email r) no_email_recipients)"
    by (elim exE conjE)
  have f3: "failed res = 3" "sent res = 0" using run(3,5) c3 len by simp_all
  have w1: "\<exists>res t'. send_bulk_emails stub_env (campaign_fs no_email_rows) handler_25
                    (Some demo_config) None None None None [] = (Inr res, t')
           \<and> total_r res = 3 \<and> sent res = 0 \<and> failed res = 3 \<and> \<not> success res
           \<and> 3 \<le> length (filter unknown_line (errors res))
           \<and> smtp_calls t' = 0 \<and> smtp_sends t' = 0"
    using run f3 c3 c0 len by (intro exI[of _ res] exI[of _ t']) (simp add: smtp_counts_Nil)
  have w2: "\<exists>m logs res1 t1.
          bulk_loop stub_env (campaign_fs no_email_rows) handler_25 demo_config
              ''template.txt'' ''Hello {{name}}'' None 1 [jane]
              (\<lparr>total_r = 3, sent = 0, failed = 0, errors = [], success = False\<rparr>, []) = (res1, t1)
        \<and> bulk_loop stub_env (campaign_fs no_email_rows) handler_25 demo_config
              ''template.txt'' ''Hello {{name}}'' None 1
              ([jane] @ (no_email_recipients ! 1) # [jane])
              (\<lparr>total_r = 3, sent = 0, failed = 0, errors = [], success = False\<rparr>, [])
            = bulk_loop stub_env (campaign_fs no_email_rows) handler_25 demo_config
                ''template.txt'' ''Hello {{name}}'' None (1 + length [jane] + 1) [jane]
                (res1\<lparr>failed := failed res1 + 1,
                       errors := errors res1 @ [''Error sending to unknown: '' @ m]\<rparr>,
                 t1 @ logs)
        \<and> list_all is_internal logs"
    by (rule inst[THEN conjunct2, rule_format, OF le])
  show ?thesis using le c3 w1 w2 by blast
qed

text \<open>The loop over a record without the key \<^verbatim>\<open>email\<close> followed by one with an
  address, evaluated: the first is recorded as failed with the text of the
  \<^verbatim>\<open>KeyError\<close>, the second is sent, and the transport is called once.\<close>

lemma bulk_loop_mixed_records:
  "(case bulk_loop stub_env (campaign_fs one_row) handler_25 demo_config
           ''template.txt'' ''Hello {{name}}'' None 1
           [[(Some ''name'', ''Bob''), (Some ''address'', ''bob@example.com'')], jane]
           (\<lparr>total_r = 2, sent = 0, failed = 0, errors = [], success = False\<rparr>, [])
    of (res, t') \<Rightarrow> (res, smtp_calls t', smtp_sends t'))
   = (\<lparr>total_r = 2, sent = 1, failed = 1,
       errors = [''Error sending to unknown: '' @ [CHR 0x27] @ ''email'' @ [CHR 0x27]],
       success = False\<rparr>, 1, 1)"
  by (simp add: bulk_step_def bulk_try_def render_template_def open_read_text_def campaign_fs_def
        text_file_obj_def stub_env_def render_subject_def send_email_def
        create_smtp_connection_def demo_config_def demo_smtp_def jane_def dict_get_def
        py_replace_def placeholder_def str_key_def text_part_def smtp_calls_def smtp_sends_def
        Let_def)

section \<open>The worker's bulk run\<close>

lemma email_sent_nonlog: "filter is_email_sent (nonlog evs) = filter is_email_sent evs"
proof -
  have "is_email_sent e \<Longrightarrow> \<not> is_logged e" for e by (cases e) simp_all
  then show ?thesis by (induction evs) (auto simp: nonlog_def)
qed

lemma run_bulk_step_chunk:
  "\<exists>res' chunk ok err.
     run_bulk_step env fs h sc tc subj atts n i r (res, t) = (res', t @ chunk)
     \<and> total_r res' = total_r res
     \<and> sent res' + failed res' = sent res + failed res + 1
     \<and> (\<forall>rs rest. in_order n i (r # rs) Idle (nonlog chunk @ rest)
                      = in_order n (i + 1) rs Idle rest)
     \<and> filter is_email_sent chunk = [EmailSentSignal (dict_get r ''email'' ''Unknown'') ok err]
     \<and> smtp_calls chunk \<le> 1 \<and> smtp_sends chunk \<le> 1"
proof -
  let ?addr = "dict_get r ''email'' ''Unknown''"
  let ?head = "[ProgressUpdated (i + 1) n, StatusUpdated (''Sending to '' @ ?addr @ ''...'')]"
  let ?t1 = "t @ ?head"
  let ?rcp = "case map_of r (Some ''email'') of Some email \<Rightarrow> RStr email | None \<Rightarrow> RNone"
  let ?se = "send_email env fs h sc (username sc) ?rcp (render_template_gui subj r)
               (render_template_gui tc r) None (Some atts) None ?t1"
  obtain sr t2 where se: "?se = (sr, t2)" by (cases ?se)
  obtain evs where e: "t2 = ?t1 @ evs"
     "(nonlog evs = [] \<and> isl sr) \<or> (nonlog evs = [SmtpConnect] \<and> isl sr)
        \<or> (\<exists>msg. nonlog evs = [SmtpConnect, SmtpSend msg])"
    using send_email_trace[of env fs h sc "username sc" ?rcp "render_template_gui subj r"
            "render_template_gui tc r" None "Some atts" None ?t1] se by auto
  define ok where "ok = (case sr of Inr b \<Rightarrow> b | Inl e \<Rightarrow> False)"
  define err where "err = (case sr of Inr b \<Rightarrow> (if b then [] else ''Send failed'')
                                    | Inl e \<Rightarrow> str_error e)"
  define res' where "res' = (case sr of
        Inr b \<Rightarrow> (if b then res\<lparr>sent := sent res + 1\<rparr> else res\<lparr>failed := failed res + 1\<rparr>)
      | Inl e \<Rightarrow> res\<lparr>failed := failed res + 1, errors := errors res @ [str_error e]\<rparr>)"
  let ?chunk = "?head @ evs @ [EmailSentSignal ?addr ok err]"
  have step: "run_bulk_step env fs h sc tc subj atts n i r (res, t) = (res', t @ ?chunk)"
    using se e(1) by (cases sr) (simp_all add: run_bulk_step_def Let_def ok_def err_def res'_def)
  have tot: "total_r res' = total_r res"
    by (cases sr) (simp_all add: res'_def)
  have cnt: "sent res' + failed res' = sent res + failed res + 1"
    by (cases sr) (simp_all add: res'_def)
  have nl: "nonlog ?chunk = ?head @ nonlog evs @ [EmailSentSignal ?addr ok err]"
    by (simp add: nonlog_append nonlog_simps)
  have ord: "in_order n i (r # rs) Idle (nonlog ?chunk @ rest) = in_order n (i + 1) rs Idle rest"
    for rs rest
  proof -
    consider (none) "nonlog evs = []" "isl sr"
      | (refused) "nonlog evs = [SmtpConnect]" "isl sr"
      | (handed) msg where "nonlog evs = [SmtpConnect, SmtpSend msg]"
      using e(2) by blast
    then show ?thesis
    proof cases
      case none
      then have "\<not> ok" by (cases sr) (simp_all add: ok_def)
      then show ?thesis using none(1) nl by simp
    next
      case refused
      then have "\<not> ok" by (cases sr) (simp_all add: ok_def)
      then show ?thesis using refused(1) nl by simp
    next
      case handed
      then show ?thesis using nl by simp
    qed
  qed
  have "filter is_email_sent (nonlog evs) = []"
    using e(2) by auto
  then have "filter is_email_sent evs = []"
    using email_sent_nonlog[of evs] by simp
  then have es: "filter is_email_sent ?chunk = [EmailSentSignal ?addr ok err]"
    by simp
  have "smtp_calls (nonlog evs) \<le> 1" "smtp_sends (nonlog evs) \<le> 1"
    using e(2) by (auto simp: smtp_calls_def smtp_sends_def)
  then have "smtp_calls evs \<le> 1" "smtp_sends evs \<le> 1"
    using smtp_calls_nonlog[of evs] smtp_sends_nonlog[of evs] by simp_all
  then have sc: "smtp_calls ?chunk \<le> 1" "smtp_sends ?chunk \<le> 1"
    by (simp_all add: smtp_calls_append smtp_sends_append)
       (simp_all add: smtp_calls_def smtp_sends_def)
  show ?thesis
    using step tot cnt ord es sc
    by (intro exI[of _ res'] exI[of _ ?chunk] exI[of _ ok] exI[of _ err]) blast
qed

lemma run_bulk_loop_prefix:
  assumes "k \<le> length rs" and "\<forall>j < k. \<not> should_stop (i + j)"
      and "k < length rs \<longrightarrow> should_stop (i + k)"
  shows "\<exists>res' body.
     run_bulk_loop env fs h sc tc subj atts n should_stop i rs (res, t) = (res', t @ body)
     \<and> total_r res' = total_r res
     \<and> sent res' + failed res' = sent res + failed res + k
     \<and> in_order n i (take k rs) Idle (nonlog body)
     \<and> map sent_to (filter is_email_sent body)
         = map (\<lambda>r. dict_get r ''email'' ''Unknown'') (take k rs)
     \<and> smtp_calls body \<le> k \<and> smtp_sends body \<le> k"
  using assms
proof (induction rs arbitrary: i k res t)
  case Nil
  then show ?case by (simp add: nonlog_def smtp_calls_def smtp_sends_def)
next
  case (Cons r rs)
  show ?case
  proof (cases k)
    case 0
    then have "should_stop i" using Cons.prems(3) by simp
    then show ?thesis using 0 by (simp add: nonlog_def smtp_calls_def smtp_sends_def)
  next
    case (Suc k')
    have go: "\<not> should_stop i" using Cons.prems(2) Suc by force
    obtain res1 chunk ok err where st:
      "run_bulk_step env fs h sc tc subj atts n i r (res, t) = (res1, t @ chunk)"
      "total_r res1 = total_r res" "sent res1 + failed res1 = sent res + failed res + 1"
      "\<forall>rs rest. in_order n i (r # rs) Idle (nonlog chunk @ rest)
                      = in_order n (i + 1) rs Idle rest"
      "filter is_email_sent chunk = [EmailSentSignal (dict_get r ''email'' ''Unknown'') ok err]"
      "smtp_calls chunk \<le> 1" "smtp_sends chunk \<le> 1"
      using run_bulk_step_chunk[of env fs h sc tc subj atts n i r res t] by blast
    have p1: "k' \<le> length rs" using Cons.prems(1) Suc by simp
    have p2: "\<forall>j < k'. \<not> should_stop (i + 1 + j)"
    proof (intro allI impI)
      fix j assume "j < k'"
      then have "\<not> should_stop (i + Suc j)" using Cons.prems(2) Suc by force
      then show "\<not> should_stop (i + 1 + j)" by simp
    qed
    have p3: "k' < length rs \<longrightarrow> should_stop (i + 1 + k')"
      using Cons.prems(3) Suc by simp
    obtain res2 body where l:
      "run_bulk_loop env fs h sc tc subj atts n should_stop (i + 1) rs (res1, t @ chunk)
         = (res2, (t @ chunk) @ body)"
      "total_r res2 = total_r res1" "sent res2 + failed res2 = sent res1 + failed res1 + k'"
      "in_order n (i + 1) (take k' rs) Idle (nonlog body)"
      "map sent_to (filter is_email_sent body)
         = map (\<lambda>r. dict_get r ''email'' ''Unknown'') (take k' rs)"
      "smtp_calls body \<le> k'" "smtp_sends body \<le> k'"
      using Cons.IH[OF p1 p2 p3, of res1 "t @ chunk"] by blast
    have run: "run_bulk_loop env fs h sc tc subj atts n should_stop i (r # rs) (res, t)
                 = (res2, t @ (chunk @ body))"
      using go st(1) l(1) by simp
    have ord: "in_order n i (take k (r # rs)) Idle (nonlog (chunk @ body))"
      using st(4) l(4) Suc by (simp add: nonlog_append)
    have addr: "map sent_to (filter is_email_sent (chunk @ body))
         = map (\<lambda>r. dict_get r ''email'' ''Unknown'') (take k (r # rs))"
      using st(5) l(5) Suc by simp
    have calls: "smtp_calls (chunk @ body) \<le> k" "smtp_sends (chunk @ body) \<le> k"
      using st(6,7) l(6,7) Suc by (simp_all add: smtp_calls_append smtp_sends_append)
    show ?thesis
      using run ord addr calls st(2,3) l(2,3) Suc
      by (intro exI[of _ res2] exI[of _ "chunk @ body"]) simp
  qed
qed

lemma run_bulk_email_prefix:
  assumes "k \<le> length recipients" and "\<forall>j < k. \<not> should_stop j"
      and "k < length recipients \<longrightarrow> should_stop k"
  shows "\<exists>body res.
     run_bulk_email env fs h (Some cfg) recipients tc subj atts should_stop t
       = t @ [StatusUpdated ''Reading recipients...'', ProgressUpdated 0 (length recipients)]
           @ body @ [FinishedSignal res]
     \<and> total_r res = length recipients
     \<and> sent res + failed res = k
     \<and> success res = (failed res = 0)
     \<and> in_order (length recipients) 0 (take k recipients) Idle (nonlog body)
     \<and> map sent_to (filter is_email_sent body)
         = map (\<lambda>r. dict_get r ''email'' ''Unknown'') (take k recipients)
     \<and> smtp_calls body \<le> k \<and> smtp_sends body \<le> k"
proof -
  let ?n = "length recipients"
  let ?t0 = "t @ [StatusUpdated ''Reading recipients...'', ProgressUpdated 0 ?n]"
  let ?res0 = "\<lparr>total_r = ?n, sent = 0, failed = 0, errors = [], success = False\<rparr>"
  have a2: "\<forall>j < k. \<not> should_stop (0 + j)" using assms(2) by simp
  have a3: "k < length recipients \<longrightarrow> should_stop (0 + k)" using assms(3) by simp
  obtain res' body where l:
     "run_bulk_loop env fs h (smtp cfg) tc subj atts ?n should_stop 0 recipients (?res0, ?t0)
        = (res', ?t0 @ body)"
     "total_r res' = total_r ?res0"
     "sent res' + failed res' = sent ?res0 + failed ?res0 + k"
     "in_order ?n 0 (take k recipients) Idle (nonlog body)"
     "map sent_to (filter is_email_sent body)
         = map (\<lambda>r. dict_get r ''email'' ''Unknown'') (take k recipients)"
     "smtp_calls body \<le> k" "smtp_sends body \<le> k"
    using run_bulk_loop_prefix[OF assms(1) a2 a3, of env fs h "smtp cfg" tc subj atts ?n ?res0 ?t0]
    by blast
  have "run_bulk_email env fs h (Some cfg) recipients tc subj atts should_stop t
       = ?t0 @ body @ [FinishedSignal (res'\<lparr>success := (failed res' = 0)\<rparr>)]"
    using l(1) by (simp add: run_bulk_email_def Let_def)
  then show ?thesis
    using l by (intro exI[of _ body] exI[of _ "res'\<lparr>success := (failed res' = 0)\<rparr>"]) simp
qed

text \<open>
  Claim C3. In the worker's bulk run over \<open>N\<close> recipients, if the stop flag reads false
  at the head of the first \<open>k\<close> iterations and true at the head of the next one
  (cancellation after \<open>k\<close> recipients; \<open>k = N\<close> when it never reads true), then the run
  ends with the \<^verbatim>\<open>finished\<close> signal carrying a result with total \<open>N\<close> and
  sent + failed \<open>= k\<close>; the per-recipient signals emitted are exactly those of the first
  \<open>k\<close> recipients, in order, none for the remaining \<open>N - k\<close>; and the transport is
  called at most \<open>k\<close> times (at most \<open>k\<close> connections are asked for and at most \<open>k\<close>
  messages are handed to SMTP).
\<close>

theorem worker_cancel_after_k:
  assumes "k \<le> length recipients" and "\<forall>j < k. \<not> should_stop j"
      and "k < length recipients \<longrightarrow> should_stop k"
  shows "\<exists>body res.
     run_bulk_email env fs h (Some cfg) recipients tc subj atts should_stop t
       = t @ [StatusUpdated ''Reading recipients...'', ProgressUpdated 0 (length recipients)]
           @ body @ [FinishedSignal res]
     \<and> total_r res = length recipients
     \<and> sent res + failed res = k
     \<and> map sent_to (filter is_email_sent body)
         = map (\<lambda>r. dict_get r ''email'' ''Unknown'') (take k recipients)
     \<and> smtp_calls body \<le> k \<and> smtp_sends body \<le> k"
  using run_bulk_email_prefix[OF assms, of env fs h cfg tc subj atts t] by blast

text \<open>The theorem at ten recipients with the flag read as set from the sixth iteration
  on: cancelling after 5 of 10.\<close>

theorem worker_cancel_after_k_witness:
  "length (replicate 10 jane) = 10 \<and> \<not> stop_from 5 4 \<and> stop_from 5 5
   \<and> (\<exists>body res.
     run_bulk_email stub_env (campaign_fs one_row) handler_25 (Some demo_config)
         (replicate 10 jane) ''Dear {{name}}'' ''Hello {{name}}'' [] (stop_from 5) []
       = [] @ [StatusUpdated ''Reading recipients...'',
               ProgressUpdated 0 (length (replicate 10 jane))]
           @ body @ [FinishedSignal res]
     \<and> total_r res = length (replicate 10 jane)
     \<and> sent res + failed res = 5
     \<and> map sent_to (filter is_email_sent body)
         = map (\<lambda>r. dict_get r ''email'' ''Unknown'') (take 5 (replicate 10 jane))
     \<and> smtp_calls body \<le> 5 \<and> smtp_sends body \<le> 5)"
proof -
  have a1: "5 \<le> length (replicate 10 jane)" by simp
  have a2: "\<forall>j < 5. \<not> stop_from 5 j" by (simp add: stop_from_def)
  have a3: "5 < length (replicate 10 jane) \<longrightarrow> stop_from 5 5" by (simp add: stop_from_def)
  have b1: "length (replicate 10 jane) = 10" by simp
  have b2: "\<not> stop_from 5 4" by (simp add: stop_from_def)
  have b3: "stop_from 5 5" by (simp add: stop_from_def)
  show ?thesis
    using b1 b2 b3
      worker_cancel_after_k[OF a1 a2 a3, of stub_env "campaign_fs one_row" handler_25
            demo_config "''Dear {{name}}''" "''Hello {{name}}''" "[]" "[]"]
    by blast
qed

text \<open>
  Claim C7, as amended. The events of the worker's bulk run come in strict recipient
  order, one recipient after the other: for recipient \<open>i\<close> (counted from 0) the
  progress signal \<open>(i + 1, total)\<close> and the status line are emitted when its processing
  starts, before the connection is asked for and its message is handed to SMTP, and
  its per-item signal is emitted after the hand-over (or, as a failure, at once when
  no connection is asked for, and after the request when the connection is not made).
  No event of a recipient precedes an event of an earlier one.
\<close>

theorem worker_events_in_order:
  assumes "k \<le> length recipients" and "\<forall>j < k. \<not> should_stop j"
      and "k < length recipients \<longrightarrow> should_stop k"
  shows "\<exists>body res.
     run_bulk_email env fs h (Some cfg) recipients tc subj atts should_stop t
       = t @ [StatusUpdated ''Reading recipients...'', ProgressUpdated 0 (length recipients)]
           @ body @ [FinishedSignal res]
     \<and> in_order (length recipients) 0 (take k recipients) Idle (nonlog body)"
  using run_bulk_email_prefix[OF assms, of env fs h cfg tc subj atts t] by blast

text \<open>The theorem at two recipients and a run that is never cancelled.\<close>

theorem worker_events_in_order_witness:
  "length [jane, jane] = 2 \<and> \<not> never_stop 0 \<and> \<not> never_stop 1
   \<and> (\<exists>body res.
     run_bulk_email stub_env (campaign_fs one_row) handler_25 (Some demo_config)
         [jane, jane] ''Dear {{name}}'' ''Hello {{name}}'' [] never_stop []
       = [] @ [StatusUpdated ''Reading recipients...'', ProgressUpdated 0 (length [jane, jane])]
           @ body @ [FinishedSignal res]
     \<and> in_order (length [jane, jane]) 0 (take 2 [jane, jane]) Idle (nonlog body))"
proof -
  have a1: "2 \<le> length [jane, jane]" by simp
  have a2: "\<forall>j < 2. \<not> never_stop j" by (simp add: never_stop_def)
  have a3: "2 < length [jane, jane] \<longrightarrow> never_stop 2" by simp
  have b1: "length [jane, jane] = 2" by simp
  have b2: "\<not> never_stop 0" "\<not> never_stop 1" by (simp_all add: never_stop_def)
  show ?thesis
    using b1 b2
      worker_events_in_order[OF a1 a2 a3, of stub_env "campaign_fs one_row" handler_25
            demo_config "''Dear {{name}}''" "''Hello {{name}}''" "[]" "[]"]
    by blast
qed

text \<open>The events of a run over one recipient, log entries left out: the progress signal
  \<open>(1, 1)\<close>, which counts the recipient, comes before the connection is asked for and
  the message is handed to SMTP.\<close>

theorem worker_progress_before_send:
  "nonlog (run_bulk_email stub_env (campaign_fs one_row) handler_25 (Some demo_config) [jane]
       ''Dear {{name}}'' ''Hello {{name}}'' [] never_stop [])
   = [StatusUpdated ''Reading recipients...'', ProgressUpdated 0 1,
      ProgressUpdated 1 1, StatusUpdated ''Sending to jane@example.com...'',
      SmtpConnect,
      SmtpSend \<lparr>msg_from = ''sender@example.com'', msg_to = ''jane@example.com'',
                msg_subject = ''Hello Jane'', msg_parts = [text_part ''Dear Jane'' ''plain'']\<rparr>,
      EmailSentSignal ''jane@example.com'' True [],
      FinishedSignal \<lparr>total_r = 1, sent = 1, failed = 0, errors = [], success = True\<rparr>]"
  by (simp add: run_bulk_email_def run_bulk_step_def send_email_def create_smtp_connection_def
        never_stop_def jane_def demo_config_def demo_smtp_def stub_env_def dict_get_def
        py_replace_def placeholder_def str_key_def smtp_calls_def nonlog_simps Let_def)

section \<open>render_template and the file system\<close>







text \<open>
  The rich strategy is outside the theorem. The development does not assume that
  Jinja2 answers the same on every call; with a template library whose answer depends
  on the number of earlier calls, two renderings of the same path against the same
  record, one right after the other, differ.
\<close>

lemma render_template_rich_history:
  "fst (render_template counting_env (campaign_fs one_row) ''template.txt'' jane []) = Inr ''0''
   \<and> fst (render_template counting_env (campaign_fs one_row) ''template.txt'' jane
            (snd (render_template counting_env (campaign_fs one_row) ''template.txt'' jane [])))
       = Inr ''1''"
  by (simp add: render_template_def open_read_text_def campaign_fs_def text_file_obj_def
        counting_env_def stub_env_def jinja_calls_def show_nat.simps digit_char_def)

end
